theory Spec2Isabelle
  imports Complex_Main "HOL-Library.Word"
begin

section \<open>Scalars\<close>

text \<open>
  The library is generic over a real floating-point scalar type \<open>T_Scalar\<close>. A scalar is
  modelled as a real number or one of the special values of the floating-point type
  (the two infinities and the undefined value \<open>undefined<T> = quiet_NaN()\<close>).
  Arithmetic on real numbers is exact (no rounding, no overflow, no signed zero);
  arithmetic on the special values follows the rules of the floating-point type: the
  undefined value is absorbing and compares false with everything, infinities keep their
  sign, and \<open>x/0\<close>, \<open>0*inf\<close>, \<open>inf - inf\<close> are infinite or undefined.
\<close>

datatype scalar = Fin real | PInf | NInf | NaN

fun is_neg :: "scalar \<Rightarrow> bool" where
  "is_neg (Fin r) = (r < 0)"
| "is_neg NInf = True"
| "is_neg PInf = False"
| "is_neg NaN = False"

definition inf_of :: "bool \<Rightarrow> scalar" where
  "inf_of neg = (if neg then NInf else PInf)"

fun s_add :: "scalar \<Rightarrow> scalar \<Rightarrow> scalar" where
  "s_add (Fin a) (Fin b) = Fin (a + b)"
| "s_add NaN y = NaN"
| "s_add x NaN = NaN"
| "s_add PInf NInf = NaN"
| "s_add NInf PInf = NaN"
| "s_add PInf y = PInf"
| "s_add NInf y = NInf"
| "s_add x PInf = PInf"
| "s_add x NInf = NInf"

fun s_neg :: "scalar \<Rightarrow> scalar" where
  "s_neg (Fin a) = Fin (- a)"
| "s_neg PInf = NInf"
| "s_neg NInf = PInf"
| "s_neg NaN = NaN"

fun s_mul :: "scalar \<Rightarrow> scalar \<Rightarrow> scalar" where
  "s_mul (Fin a) (Fin b) = Fin (a * b)"
| "s_mul NaN y = NaN"
| "s_mul x NaN = NaN"
| "s_mul (Fin a) y = (if a = 0 then NaN else inf_of ((a < 0) \<noteq> is_neg y))"
| "s_mul x (Fin b) = (if b = 0 then NaN else inf_of (is_neg x \<noteq> (b < 0)))"
| "s_mul x y = inf_of (is_neg x \<noteq> is_neg y)"

fun s_div :: "scalar \<Rightarrow> scalar \<Rightarrow> scalar" where
  "s_div (Fin a) (Fin b) =
     (if b \<noteq> 0 then Fin (a / b) else if a = 0 then NaN else inf_of (a < 0))"
| "s_div NaN y = NaN"
| "s_div x NaN = NaN"
| "s_div (Fin a) y = Fin 0"
| "s_div x (Fin b) = inf_of (is_neg x \<noteq> (b < 0))"
| "s_div x y = NaN"

fun s_abs :: "scalar \<Rightarrow> scalar" where
  "s_abs (Fin a) = Fin \<bar>a\<bar>"
| "s_abs PInf = PInf"
| "s_abs NInf = PInf"
| "s_abs NaN = NaN"

fun s_less :: "scalar \<Rightarrow> scalar \<Rightarrow> bool" where
  "s_less (Fin a) (Fin b) = (a < b)"
| "s_less NaN y = False"
| "s_less x NaN = False"
| "s_less NInf y = (y \<noteq> NInf)"
| "s_less x PInf = (x \<noteq> PInf)"
| "s_less x y = False"

fun s_le :: "scalar \<Rightarrow> scalar \<Rightarrow> bool" where
  "s_le (Fin a) (Fin b) = (a \<le> b)"
| "s_le NaN y = False"
| "s_le x NaN = False"
| "s_le NInf y = True"
| "s_le x PInf = True"
| "s_le x y = False"

instantiation scalar :: "{zero, one, plus, minus, uminus, times, inverse, abs, ord}"
begin

definition zero_scalar :: scalar where "0 = Fin 0"
definition one_scalar :: scalar where "1 = Fin 1"
definition plus_scalar :: "scalar \<Rightarrow> scalar \<Rightarrow> scalar" where "x + y = s_add x y"
definition uminus_scalar :: "scalar \<Rightarrow> scalar" where "- x = s_neg x"
definition minus_scalar :: "scalar \<Rightarrow> scalar \<Rightarrow> scalar" where "x - y = s_add x (s_neg y)"
definition times_scalar :: "scalar \<Rightarrow> scalar \<Rightarrow> scalar" where "x * y = s_mul x y"
definition divide_scalar :: "scalar \<Rightarrow> scalar \<Rightarrow> scalar" where "x div y = s_div x y"
definition inverse_scalar :: "scalar \<Rightarrow> scalar" where "inverse x = s_div (Fin 1) x"
definition abs_scalar :: "scalar \<Rightarrow> scalar" where "\<bar>x\<bar> = s_abs x"
definition less_scalar :: "scalar \<Rightarrow> scalar \<Rightarrow> bool" where "x < y = s_less x y"
definition less_eq_scalar :: "scalar \<Rightarrow> scalar \<Rightarrow> bool" where "x \<le> y = s_le x y"

instance ..

end

text \<open>The \<open>==\<close> of the scalar type: the undefined value equals nothing, itself included.\<close>

definition s_eq :: "scalar \<Rightarrow> scalar \<Rightarrow> bool" where
  "s_eq x y = (x \<noteq> NaN \<and> y \<noteq> NaN \<and> x = y)"

subsection \<open>Scalar utilities\<close>

definition IsZero :: "scalar \<Rightarrow> bool" where
  "IsZero x = s_eq (Fin 0) x"

definition IsUnit :: "scalar \<Rightarrow> bool" where
  "IsUnit x = s_eq 1 x"

definition IsUndefined :: "scalar \<Rightarrow> bool" where
  "IsUndefined x = (x = NaN)"

definition IntSignOrZero :: "scalar \<Rightarrow> int" where
  "IntSignOrZero x = (if 0 < x then 1 else if x < 0 then - 1 else 0)"

definition Sqr :: "scalar \<Rightarrow> scalar" where
  "Sqr x = x * x"

fun Sqrt :: "scalar \<Rightarrow> scalar" where
  "Sqrt (Fin a) = (if a < 0 then NaN else Fin (sqrt a))"
| "Sqrt PInf = PInf"
| "Sqrt NInf = NaN"
| "Sqrt NaN = NaN"

fun Hypot :: "scalar \<Rightarrow> scalar \<Rightarrow> scalar" where
  "Hypot (Fin a) (Fin b) = Fin (sqrt (a * a + b * b))"
| "Hypot PInf y = PInf"
| "Hypot NInf y = PInf"
| "Hypot x PInf = PInf"
| "Hypot x NInf = PInf"
| "Hypot x y = NaN"

definition CopySign :: "scalar \<Rightarrow> scalar \<Rightarrow> scalar" where
  "CopySign to from = (if is_neg from then - \<bar>to\<bar> else \<bar>to\<bar>)"

definition Inv :: "scalar \<Rightarrow> scalar" where
  "Inv x = Fin 1 / x"

definition Max2 :: "scalar \<Rightarrow> scalar \<Rightarrow> scalar" where
  "Max2 a b = (if b < a then a else b)"

definition Clamp :: "scalar \<Rightarrow> scalar \<Rightarrow> scalar \<Rightarrow> scalar" where
  "Clamp v lo hi = (if hi < v then hi else if v < lo then lo else v)"

text \<open>
  The limits of the scalar type, \<open>std::numeric_limits<T>::min()\<close>, \<open>max()\<close> and
  \<open>epsilon()\<close>, are parameters of the model.
\<close>

record limits =
  minValue :: scalar
  maxValue :: scalar
  epsilon :: scalar

subsection \<open>Signals and views\<close>

text \<open>
  \<open>BadArgument\<close> is the exception of the library (a message and the 1-based index of
  the offending argument). \<open>OutOfBlock i j\<close> marks an access to element \<open>(i, j)\<close> of a
  matrix block outside its \<open>m\<close> rows and \<open>n\<close> columns, where the routine is modelled with
  checked accesses.
\<close>

datatype signal = BadArgument string int | OutOfBlock int int

definition sig_bind :: "signal + 'a \<Rightarrow> ('a \<Rightarrow> signal + 'b) \<Rightarrow> signal + 'b" where
  "sig_bind r f = (case r of Inl sg \<Rightarrow> Inl sg | Inr a \<Rightarrow> f a)"

text \<open>
  An array argument is the memory seen from its pointer, indexed by \<open>Index\<close>. A matrix block
  is seen through the addressing strategy \<open>Lyt::MatRef (A_, i, j, A_ld)\<close>, a function of
  the logical row and column; the layout itself (row- or column-major, leading dimension)
  is not modelled. A read-only strided operand (pointer and stride) is modelled by the
  sequence of elements it walks over. Distinct arguments are distinct buffers.
\<close>

type_synonym vec = "int \<Rightarrow> scalar"
type_synonym mat = "int \<times> int \<Rightarrow> scalar"

definition VecRef :: "vec \<Rightarrow> int \<Rightarrow> int \<Rightarrow> scalar" where
  "VecRef x i x_s = x (i * x_s)"

definition VecView :: "vec \<Rightarrow> int \<Rightarrow> vec" where
  "VecView x x_s = (\<lambda>i. VecRef x i x_s)"

definition RowView :: "mat \<Rightarrow> int \<Rightarrow> vec" where
  "RowView A i = (\<lambda>k. A (i, k))"

definition ColView :: "mat \<Rightarrow> int \<Rightarrow> vec" where
  "ColView A j = (\<lambda>k. A (k, j))"

definition ptr_add :: "vec \<Rightarrow> int \<Rightarrow> vec" where
  "ptr_add x k = (\<lambda>i. x (k + i))"

definition ptr_store :: "vec \<Rightarrow> int \<Rightarrow> vec" where
  "ptr_store y k = (\<lambda>i. y (i - k))"

text \<open>The enumerations; \<open>Half_Both\<close> stands for \<open>Half::Both\<close>, and so on.\<close>

datatype Trnsp = Trnsp_No | Trnsp_Yes | Trnsp_Conj
datatype Half = Half_Upper | Half_Lower | Half_Both
datatype Diag = Diag_IsUnit | Diag_NotUnit
datatype Side = Side_Left | Side_Right
datatype NormType = NormType_Max | NormType_One | NormType_Inf | NormType_Frob
datatype Pivot = Pivot_Btm | Pivot_Top | Pivot_Var
datatype Direct = Direct_Fwd | Direct_Bwd

section \<open>BLAS vector and matrix primitives\<close>

definition Conj :: "scalar \<Rightarrow> scalar" where
  "Conj x = x"

definition Vec_Zero :: "nat \<Rightarrow> vec \<Rightarrow> int \<Rightarrow> vec" where
  "Vec_Zero n x x_s = fold (\<lambda>i x. x(int i * x_s := Fin 0)) [0..<n] x"

definition Vec_Scale :: "nat \<Rightarrow> scalar \<Rightarrow> vec \<Rightarrow> int \<Rightarrow> vec" where
  "Vec_Scale n alpha x x_s =
     (let x1 = (if IsZero alpha then Vec_Zero n x x_s else x)
      in if \<not> IsUnit alpha
         then fold (\<lambda>i x. x(int i * x_s := x (int i * x_s) * alpha)) [0..<n] x1
         else x1)"

definition Vec_AXPlusY :: "nat \<Rightarrow> scalar \<Rightarrow> vec \<Rightarrow> vec \<Rightarrow> int \<Rightarrow> vec" where
  "Vec_AXPlusY n alpha x y y_s =
     fold (\<lambda>i y. y(int i * y_s := y (int i * y_s) + alpha * x (int i))) [0..<n] y"

definition Vec_AConjXPlusY :: "nat \<Rightarrow> scalar \<Rightarrow> vec \<Rightarrow> vec \<Rightarrow> int \<Rightarrow> vec" where
  "Vec_AConjXPlusY n alpha x y y_s =
     fold (\<lambda>i y. y(int i * y_s := y (int i * y_s) + alpha * Conj (x (int i)))) [0..<n] y"

definition Mat_VecMul ::
  "Trnsp \<Rightarrow> nat \<Rightarrow> nat \<Rightarrow> scalar \<Rightarrow> mat \<Rightarrow> vec \<Rightarrow> scalar \<Rightarrow> vec \<Rightarrow> int \<Rightarrow> vec" where
  "Mat_VecMul A_trnsp m n alpha A x beta y y_s =
     (case A_trnsp of
        Trnsp_No \<Rightarrow>
          (let y1 = Vec_Scale m beta y y_s
           in if IsZero alpha then y1
              else fold (\<lambda>j y. Vec_AXPlusY m (alpha * x (int j)) (ColView A (int j)) y y_s)
                     [0..<n] y1)
      | Trnsp_Yes \<Rightarrow>
          (let y1 = Vec_Scale n beta y y_s
           in if IsZero alpha then y1
              else fold (\<lambda>i y. Vec_AXPlusY n (alpha * x (int i)) (RowView A (int i)) y y_s)
                     [0..<m] y1)
      | Trnsp_Conj \<Rightarrow>
          (let y1 = Vec_Scale n beta y y_s
           in if IsZero alpha then y1
              else fold (\<lambda>i y. Vec_AConjXPlusY n (alpha * x (int i)) (RowView A (int i)) y y_s)
                     [0..<m] y1))"

definition Mat_Rank1Upd :: "nat \<Rightarrow> nat \<Rightarrow> scalar \<Rightarrow> vec \<Rightarrow> vec \<Rightarrow> mat \<Rightarrow> mat" where
  "Mat_Rank1Upd m n alpha x y A =
     (if IsZero alpha then A
      else fold (\<lambda>j A.
             let ayj = alpha * y (int j)
             in fold (\<lambda>i A. A((int i, int j) := A (int i, int j) + x (int i) * ayj)) [0..<m] A)
           [0..<n] A)"

section \<open>Elementary reflectors\<close>

text \<open>
  \<open>Idx_LastCol\<close>: the index of the last non-zero column, or \<open>-1\<close>. The result \<open>n-1\<close> of
  type \<open>Size\<close> is returned as an \<open>Index\<close>, so \<open>n = 0\<close> gives \<open>-1\<close>. \<open>col_scan m A n\<close> is the
  loop over the columns \<open>j = n-1, \<dots>, 0\<close> that returns the first \<open>j\<close> with a non-zero among
  the rows \<open>0, \<dots>, m-1\<close>.
\<close>

fun col_scan :: "nat \<Rightarrow> mat \<Rightarrow> nat \<Rightarrow> int" where
  "col_scan m A 0 = - 1"
| "col_scan m A (Suc j) =
     (if \<exists>i \<in> set [0..<m]. \<not> IsZero (A (int i, int j)) then int j else col_scan m A j)"

definition Idx_LastCol :: "nat \<Rightarrow> nat \<Rightarrow> mat \<Rightarrow> int" where
  "Idx_LastCol m n A =
     (if n = 0 then int n - 1
      else if \<not> IsZero (A (0, int n - 1)) \<or> \<not> IsZero (A (int m - 1, int n - 1))
      then int n - 1
      else col_scan m A n)"

function scan_up :: "mat \<Rightarrow> int \<Rightarrow> int \<Rightarrow> int" where
  "scan_up A j i = (if s_eq (Fin 0) (A (max i 0, j)) \<and> i \<ge> 0 then scan_up A j (i - 1) else i)"
  by pat_completeness auto
termination
  by (relation "measure (\<lambda>(A, j, i). nat (i + 1))") auto

declare scan_up.simps [simp del]

definition Idx_LastRow :: "nat \<Rightarrow> nat \<Rightarrow> mat \<Rightarrow> int" where
  "Idx_LastRow m n A =
     (if m = 0 then int m - 1
      else if \<not> s_eq (Fin 0) (A (int m - 1, 0)) \<or> \<not> s_eq (Fin 0) (A (int m - 1, int n - 1))
      then int m - 1
      else fold (\<lambda>j row. max row (scan_up A (int j) (int m - 1))) [0..<n] (- 1))"

function scan_lastv :: "vec \<Rightarrow> int \<Rightarrow> int \<Rightarrow> int \<Rightarrow> int" where
  "scan_lastv v V_cs lastv i =
     (if lastv > 0 \<and> IsZero (v i) then scan_lastv v V_cs (lastv - 1) (i - V_cs) else lastv)"
  by pat_completeness auto
termination
  by (relation "measure (\<lambda>(v, V_cs, lastv, i). nat lastv)") auto

declare scan_lastv.simps [simp del]

definition Rfl_MatMul ::
  "Side \<Rightarrow> nat \<Rightarrow> nat \<Rightarrow> vec \<Rightarrow> int \<Rightarrow> scalar \<Rightarrow> mat \<Rightarrow> vec \<Rightarrow> mat \<times> vec" where
  "Rfl_MatMul side m n v V_cs tau C work =
     (if IsZero tau then (C, work)
      else
        let lastv0 = (if side = Side_Left then int m else int n);
            i0 = (if V_cs > 0 then (1 + (lastv0 - 1) * V_cs) - 1 else 0);
            lastv = scan_lastv v V_cs lastv0 i0;
            lastc = (if side = Side_Left
                     then Idx_LastCol (nat lastv) n C + 1
                     else Idx_LastRow m (nat lastv) C + 1)
        in if side = Side_Left then
             (if lastv > 0 then
                let work1 = Mat_VecMul Trnsp_Yes (nat lastv) (nat lastc) 1 C (VecView v V_cs) 0 work 1;
                    C1 = Mat_Rank1Upd (nat lastv) (nat lastc) (- tau) (VecView v V_cs)
                           (VecView work1 1) C
                in (C1, work1)
              else (C, work))
           else
             (if lastv > 0 then
                let work1 = Mat_VecMul Trnsp_No (nat lastc) (nat lastv) 1 C (VecView v V_cs) 0 work 1;
                    C1 = Mat_Rank1Upd (nat lastc) (nat lastv) (- tau) (VecView work1 1)
                           (VecView v V_cs) C
                in (C1, work1)
              else (C, work)))"

subsection \<open>Sizes\<close>

text \<open>
  \<open>Size\<close> is \<open>std::size_t\<close>, taken as 64 bits wide: a natural number below \<open>2^64\<close>
  whose arithmetic wraps around. \<open>Index\<close> and \<open>Stride\<close> are the signed type of the same
  width and are modelled as integers.
\<close>

definition size_sub :: "nat \<Rightarrow> nat \<Rightarrow> nat" where
  "size_sub a b = (a + 2 ^ 64 - b mod 2 ^ 64) mod 2 ^ 64"

definition size_mul :: "nat \<Rightarrow> nat \<Rightarrow> nat" where
  "size_mul a b = (a * b) mod 2 ^ 64"

section \<open>Work-size formulas\<close>

definition Ort_From_Syt_WorkSize :: "nat \<Rightarrow> nat" where
  "Ort_From_Syt_WorkSize n = size_sub n 1"

definition Ort_From_QL_WorkSize :: "nat \<Rightarrow> nat \<Rightarrow> nat \<Rightarrow> nat" where
  "Ort_From_QL_WorkSize m n k = k"

definition Ort_From_QR_WorkSize :: "nat \<Rightarrow> nat \<Rightarrow> nat \<Rightarrow> nat" where
  "Ort_From_QR_WorkSize m n k = m"

subsection \<open>The untrimmed rank-1 update\<close>

text \<open>
  The reference for \<open>Rfl_MatMul\<close>, written from its specification over the real numbers:
  \<open>C := C - tau*v*(v\<^sup>T*C)\<close> from the left and \<open>C := C - tau*(C*v)*v\<^sup>T\<close> from the right,
  over all \<open>m\<close> rows and \<open>n\<close> columns, with no trimming.
\<close>

fun is_fin :: "scalar \<Rightarrow> bool" where
  "is_fin (Fin r) = True"
| "is_fin x = False"

fun val :: "scalar \<Rightarrow> real" where
  "val (Fin r) = r"
| "val x = 0"



section \<open>Plane-rotation sequences (\<open>Mat_RotSeq\<close>)\<close>

text \<open>
  \<open>Mat_RotSeq\<close> is modelled with checked accesses: reading or writing element \<open>(i, j)\<close> of
  the \<open>m\<close>-by-\<open>n\<close> block outside \<open>0 \<le> i < m\<close>, \<open>0 \<le> j < n\<close> stops the routine with
  \<open>OutOfBlock i j\<close>. A \<open>for\<close> loop with fixed bounds runs over the list of its index values.
\<close>

definition mat_get :: "nat \<Rightarrow> nat \<Rightarrow> mat \<Rightarrow> int \<Rightarrow> int \<Rightarrow> signal + scalar" where
  "mat_get m n A i j =
     (if 0 \<le> i \<and> i < int m \<and> 0 \<le> j \<and> j < int n then Inr (A (i, j)) else Inl (OutOfBlock i j))"

definition mat_set :: "nat \<Rightarrow> nat \<Rightarrow> mat \<Rightarrow> int \<Rightarrow> int \<Rightarrow> scalar \<Rightarrow> signal + mat" where
  "mat_set m n A i j x =
     (if 0 \<le> i \<and> i < int m \<and> 0 \<le> j \<and> j < int n then Inr (A((i, j) := x))
      else Inl (OutOfBlock i j))"

fun for_each :: "int list \<Rightarrow> (int \<Rightarrow> 'a \<Rightarrow> signal + 'a) \<Rightarrow> 'a \<Rightarrow> signal + 'a" where
  "for_each [] body a = Inr a"
| "for_each (i # is) body a = sig_bind (body i a) (for_each is body)"

definition in_order :: "Direct \<Rightarrow> int list \<Rightarrow> int list" where
  "in_order direct js = (case direct of Direct_Fwd \<Rightarrow> js | Direct_Bwd \<Rightarrow> rev js)"

definition rot_if :: "scalar \<Rightarrow> scalar \<Rightarrow> (mat \<Rightarrow> signal + mat) \<Rightarrow> mat \<Rightarrow> signal + mat" where
  "rot_if cj sj body A = (if \<not> IsUnit cj \<or> \<not> IsUnit sj then body A else Inr A)"

text \<open>
  The loop bodies. \<open>Side::Left\<close>, \<open>Pivot::Var\<close>:
  \<open>aji = A(j+1,i); A(j+1,i) = cj*aji - sj*A(j,i); A(j,i) = sj*aji + cj*A(j,i)\<close>.
\<close>

definition rot_Left_Var :: "nat \<Rightarrow> nat \<Rightarrow> scalar \<Rightarrow> scalar \<Rightarrow> int \<Rightarrow> int \<Rightarrow> mat \<Rightarrow> signal + mat" where
  "rot_Left_Var m n cj sj j i A =
     sig_bind (mat_get m n A (j + 1) i) (\<lambda>aji.
     sig_bind (mat_get m n A j i) (\<lambda>a1.
     sig_bind (mat_set m n A (j + 1) i (cj * aji - sj * a1)) (\<lambda>A.
     sig_bind (mat_get m n A j i) (\<lambda>a2.
     mat_set m n A j i (sj * aji + cj * a2)))))"

text \<open>\<open>Side::Left\<close>, \<open>Pivot::Top\<close>:
  \<open>aji = A(j,i); A(j,i) = cj*aji - sj*A(0,i); A(0,i) = sj*aji + cj*A(0,i)\<close>.\<close>

definition rot_Left_Top :: "nat \<Rightarrow> nat \<Rightarrow> scalar \<Rightarrow> scalar \<Rightarrow> int \<Rightarrow> int \<Rightarrow> mat \<Rightarrow> signal + mat" where
  "rot_Left_Top m n cj sj j i A =
     sig_bind (mat_get m n A j i) (\<lambda>aji.
     sig_bind (mat_get m n A 0 i) (\<lambda>a1.
     sig_bind (mat_set m n A j i (cj * aji - sj * a1)) (\<lambda>A.
     sig_bind (mat_get m n A 0 i) (\<lambda>a2.
     mat_set m n A 0 i (sj * aji + cj * a2)))))"

text \<open>\<open>Side::Left\<close>, \<open>Pivot::Btm\<close>:
  \<open>aji = A(j,i); A(j,i) = sj*A(m-1,i) + cj*aji; A(m-1,i) = cj*A(m-1,i) - sj*aji\<close>.\<close>

definition rot_Left_Btm :: "nat \<Rightarrow> nat \<Rightarrow> scalar \<Rightarrow> scalar \<Rightarrow> int \<Rightarrow> int \<Rightarrow> mat \<Rightarrow> signal + mat" where
  "rot_Left_Btm m n cj sj j i A =
     sig_bind (mat_get m n A j i) (\<lambda>aji.
     sig_bind (mat_get m n A (int m - 1) i) (\<lambda>a1.
     sig_bind (mat_set m n A j i (sj * a1 + cj * aji)) (\<lambda>A.
     sig_bind (mat_get m n A (int m - 1) i) (\<lambda>a2.
     mat_set m n A (int m - 1) i (cj * a2 - sj * aji)))))"

text \<open>\<open>Side::Right\<close>, \<open>Pivot::Var\<close>:
  \<open>aij = A(i,j+1); A(i,j+1) = cj*aij - sj*A(i,j); A(i,j) = sj*aij + cj*A(i,j)\<close>.\<close>

definition rot_Right_Var :: "nat \<Rightarrow> nat \<Rightarrow> scalar \<Rightarrow> scalar \<Rightarrow> int \<Rightarrow> int \<Rightarrow> mat \<Rightarrow> signal + mat" where
  "rot_Right_Var m n cj sj j i A =
     sig_bind (mat_get m n A i (j + 1)) (\<lambda>aij.
     sig_bind (mat_get m n A i j) (\<lambda>a1.
     sig_bind (mat_set m n A i (j + 1) (cj * aij - sj * a1)) (\<lambda>A.
     sig_bind (mat_get m n A i j) (\<lambda>a2.
     mat_set m n A i j (sj * aij + cj * a2)))))"

text \<open>\<open>Side::Right\<close>, \<open>Pivot::Top\<close>:
  \<open>aij = A(i,j); A(i,j) = cj*aij - sj*A(i,0); A(i,0) = sj*aij + cj*A(i,0)\<close>.\<close>

definition rot_Right_Top :: "nat \<Rightarrow> nat \<Rightarrow> scalar \<Rightarrow> scalar \<Rightarrow> int \<Rightarrow> int \<Rightarrow> mat \<Rightarrow> signal + mat" where
  "rot_Right_Top m n cj sj j i A =
     sig_bind (mat_get m n A i j) (\<lambda>aij.
     sig_bind (mat_get m n A i 0) (\<lambda>a1.
     sig_bind (mat_set m n A i j (cj * aij - sj * a1)) (\<lambda>A.
     sig_bind (mat_get m n A i 0) (\<lambda>a2.
     mat_set m n A i 0 (sj * aij + cj * a2)))))"

text \<open>\<open>Side::Right\<close>, \<open>Pivot::Btm\<close>, \<open>Direct::Fwd\<close>:
  \<open>aij = A(i,j); A(i,j) = sj*A(i,n-1) + cj*aij; A(i,n-1) = cj*A(i,n) - sj*aij\<close>.\<close>

definition rot_Right_Btm_Fwd :: "nat \<Rightarrow> nat \<Rightarrow> scalar \<Rightarrow> scalar \<Rightarrow> int \<Rightarrow> int \<Rightarrow> mat \<Rightarrow> signal + mat" where
  "rot_Right_Btm_Fwd m n cj sj j i A =
     sig_bind (mat_get m n A i j) (\<lambda>aij.
     sig_bind (mat_get m n A i (int n - 1)) (\<lambda>a1.
     sig_bind (mat_set m n A i j (sj * a1 + cj * aij)) (\<lambda>A.
     sig_bind (mat_get m n A i (int n)) (\<lambda>a2.
     mat_set m n A i (int n - 1) (cj * a2 - sj * aij)))))"

text \<open>\<open>Side::Right\<close>, \<open>Pivot::Btm\<close>, \<open>Direct::Bwd\<close>:
  \<open>aij = A(i,j); A(i,j) = sj*A(i,n-1) + cj*aij; A(i,n-1) = cj*A(i,n-1) - sj*aij\<close>.\<close>

definition rot_Right_Btm_Bwd :: "nat \<Rightarrow> nat \<Rightarrow> scalar \<Rightarrow> scalar \<Rightarrow> int \<Rightarrow> int \<Rightarrow> mat \<Rightarrow> signal + mat" where
  "rot_Right_Btm_Bwd m n cj sj j i A =
     sig_bind (mat_get m n A i j) (\<lambda>aij.
     sig_bind (mat_get m n A i (int n - 1)) (\<lambda>a1.
     sig_bind (mat_set m n A i j (sj * a1 + cj * aij)) (\<lambda>A.
     sig_bind (mat_get m n A i (int n - 1)) (\<lambda>a2.
     mat_set m n A i (int n - 1) (cj * a2 - sj * aij)))))"

definition Mat_RotSeq ::
  "Side \<Rightarrow> Pivot \<Rightarrow> Direct \<Rightarrow> nat \<Rightarrow> nat \<Rightarrow> vec \<Rightarrow> vec \<Rightarrow> mat \<Rightarrow> signal + mat" where
  "Mat_RotSeq side pivot direct m n c s A =
     (if m = 0 \<or> n = 0 then Inr A
      else case side of
        Side_Left \<Rightarrow>
          (case pivot of
             Pivot_Var \<Rightarrow>
               for_each (in_order direct [0..int m - 2])
                 (\<lambda>j. rot_if (c j) (s j)
                    (for_each [0..int n - 1] (rot_Left_Var m n (c j) (s j) j))) A
           | Pivot_Top \<Rightarrow>
               for_each (in_order direct [1..int m - 1])
                 (\<lambda>j. rot_if (c (j - 1)) (s (j - 1))
                    (for_each [0..int n - 1] (rot_Left_Top m n (c (j - 1)) (s (j - 1)) j))) A
           | Pivot_Btm \<Rightarrow>
               for_each (in_order direct [0..int m - 2])
                 (\<lambda>j. rot_if (c j) (s j)
                    (for_each [0..int n - 1] (rot_Left_Btm m n (c j) (s j) j))) A)
      | Side_Right \<Rightarrow>
          (case pivot of
             Pivot_Var \<Rightarrow>
               for_each (in_order direct [0..int n - 2])
                 (\<lambda>j. rot_if (c j) (s j)
                    (for_each [0..int m - 1] (rot_Right_Var m n (c j) (s j) j))) A
           | Pivot_Top \<Rightarrow>
               for_each (in_order direct [1..int n - 1])
                 (\<lambda>j. rot_if (c (j - 1)) (s (j - 1))
                    (for_each [0..int m - 1] (rot_Right_Top m n (c (j - 1)) (s (j - 1)) j))) A
           | Pivot_Btm \<Rightarrow>
               (case direct of
                  Direct_Fwd \<Rightarrow>
                    for_each [0..int n - 2]
                      (\<lambda>j. rot_if (c j) (s j)
                         (for_each [0..int m - 1] (rot_Right_Btm_Fwd m n (c j) (s j) j))) A
                | Direct_Bwd \<Rightarrow>
                    for_each (rev [0..int n - 2])
                      (\<lambda>j. rot_if (c j) (s j)
                         (for_each [0..int m - 1] (rot_Right_Btm_Bwd m n (c j) (s j) j))) A)))"

section \<open>Triangular-only routines\<close>

definition Sym_Rank2Upd ::
  "Half \<Rightarrow> nat \<Rightarrow> scalar \<Rightarrow> vec \<Rightarrow> vec \<Rightarrow> mat \<Rightarrow> signal + mat" where
  "Sym_Rank2Upd half n alpha x y A =
     (if half = Half_Both then Inl (BadArgument ''Sym_Rank2Upd'' 1)
      else if IsZero alpha then Inr A
      else if half = Half_Upper then
        Inr (fold (\<lambda>j A.
               let u = y j; v = x j
               in if \<not> IsZero u \<or> \<not> IsZero v
                  then (let u = u * alpha; v = v * alpha
                        in fold (\<lambda>i A. A((i, j) := A (i, j) + (x i * u + y i * v))) [0..j] A)
                  else A)
             [0..int n - 1] A)
      else if half = Half_Lower then
        Inr (fold (\<lambda>j A.
               let u = y j; v = x j
               in if \<not> IsZero u \<or> \<not> IsZero v
                  then (let u = u * alpha; v = v * alpha
                        in fold (\<lambda>i A. A((i, j) := A (i, j) + (x i * u + y i * v)))
                             [j..int n - 1] A)
                  else A)
             [0..int n - 1] A)
      else Inr A)"

text \<open>
  \<open>Tri_Solv_Vec\<close>: the vector \<open>x\<close> is read and written through \<open>Lyt::VecRef (x_, i, x_s)\<close>;
  \<open>tsv_col xj A j x_s\<close> is the inner loop \<open>x(i) -= xj*A(i,j)\<close> and \<open>tsv_dot A j x_s\<close> the inner
  loop \<open>xj -= A(i,j)*x(i)\<close>, over the given indices \<open>i\<close>.
\<close>

definition tsv_col :: "scalar \<Rightarrow> mat \<Rightarrow> int \<Rightarrow> int \<Rightarrow> int list \<Rightarrow> vec \<Rightarrow> vec" where
  "tsv_col xj A j x_s is x = fold (\<lambda>i x. x(i * x_s := x (i * x_s) - xj * A (i, j))) is x"

definition tsv_dot :: "mat \<Rightarrow> int \<Rightarrow> int \<Rightarrow> vec \<Rightarrow> int list \<Rightarrow> scalar \<Rightarrow> scalar" where
  "tsv_dot A j x_s x is xj = fold (\<lambda>i xj. xj - Conj (A (i, j)) * x (i * x_s)) is xj"

definition tsv_fwd_step :: "Diag \<Rightarrow> mat \<Rightarrow> int \<Rightarrow> int list \<Rightarrow> int \<Rightarrow> vec \<Rightarrow> vec" where
  "tsv_fwd_step diag A x_s is j x =
     (if IsZero (x (j * x_s)) then x
      else let x1 = (if diag = Diag_NotUnit then x(j * x_s := x (j * x_s) / A (j, j)) else x);
               xj = x1 (j * x_s)
           in tsv_col xj A j x_s is x1)"

definition tsv_bwd_step :: "Diag \<Rightarrow> mat \<Rightarrow> int \<Rightarrow> int list \<Rightarrow> int \<Rightarrow> vec \<Rightarrow> vec" where
  "tsv_bwd_step diag A x_s is j x =
     (let xj = tsv_dot A j x_s x is (x (j * x_s));
          xj = (if diag = Diag_NotUnit then xj / Conj (A (j, j)) else xj)
      in x(j * x_s := xj))"

definition Tri_Solv_Vec ::
  "Half \<Rightarrow> Trnsp \<Rightarrow> Diag \<Rightarrow> nat \<Rightarrow> mat \<Rightarrow> int \<Rightarrow> vec \<Rightarrow> int \<Rightarrow> signal + vec" where
  "Tri_Solv_Vec half A_trnsp diag n A A_ld x x_s =
     (if half = Half_Both then Inl (BadArgument ''Tri_Solv_Vec'' 1)
      else if A_ld < int (max 1 n) then Inl (BadArgument ''Tri_Solv_Vec'' 6)
      else case A_trnsp of
        Trnsp_No \<Rightarrow>
          (if half = Half_Upper then
             Inr (fold (\<lambda>j. tsv_fwd_step diag A x_s (rev [0..j - 1]) j) (rev [0..int n - 1]) x)
           else if half = Half_Lower then
             Inr (fold (\<lambda>j. tsv_fwd_step diag A x_s [j + 1..int n - 1] j) [0..int n - 1] x)
           else Inr x)
      | Trnsp_Yes \<Rightarrow>
          (if half = Half_Upper then
             Inr (fold (\<lambda>j. tsv_bwd_step diag A x_s [0..j - 1] j) [0..int n - 1] x)
           else if half = Half_Lower then
             Inr (fold (\<lambda>j. tsv_bwd_step diag A x_s (rev [j + 1..int n - 1]) j)
                    (rev [0..int n - 1]) x)
           else Inr x)
      | Trnsp_Conj \<Rightarrow>
          (if half = Half_Upper then
             Inr (fold (\<lambda>j. tsv_bwd_step diag A x_s [0..j - 1] j) [0..int n - 1] x)
           else if half = Half_Lower then
             Inr (fold (\<lambda>j. tsv_bwd_step diag A x_s (rev [j + 1..int n - 1]) j)
                    (rev [0..int n - 1]) x)
           else Inr x))"

section \<open>Norms\<close>

definition Vec_SmSqr :: "nat \<Rightarrow> vec \<Rightarrow> scalar \<times> scalar \<Rightarrow> scalar \<times> scalar" where
  "Vec_SmSqr n x ss =
     (if n = 0 then ss
      else fold (\<lambda>i (scale, sumsq).
             let absxi = \<bar>x i\<bar>
             in if IntSignOrZero absxi > 0 \<or> IsUndefined absxi
                then (if scale < absxi
                      then (absxi, 1 + sumsq * Sqr (scale / absxi))
                      else (scale, sumsq + Sqr (absxi / scale)))
                else (scale, sumsq))
           [0..int n - 1] ss)"

definition Aux_CombSsq2 :: "scalar \<times> scalar \<Rightarrow> scalar \<times> scalar \<Rightarrow> scalar \<times> scalar" where
  "Aux_CombSsq2 v1 v2 =
     (if fst v2 \<le> fst v1
      then (if \<not> s_eq (Fin 0) (fst v1)
            then (fst v1, snd v2 + Sqr (fst v2 / fst v1) * snd v2)
            else (fst v1, snd v1 + snd v2))
      else (fst v2, snd v2 + Sqr (fst v1 / fst v2) * snd v1))"

definition norm_max :: "scalar \<Rightarrow> scalar \<Rightarrow> scalar" where
  "norm_max value a = (if value < a \<or> IsUndefined a then a else value)"

text \<open>
  \<open>Sym_Norm\<close> returns the norm and leaves its partial column sums in the work buffer.
  \<open>Lyt::ColPtr (A_, i0, j, A_ld)\<close> with the column stride is the part of column \<open>j\<close> from row
  \<open>i0\<close> on, and \<open>Lyt::DiagPtr\<close> with the diagonal stride is the diagonal.
\<close>

definition Sym_Norm :: "NormType \<Rightarrow> Half \<Rightarrow> nat \<Rightarrow> mat \<Rightarrow> vec \<Rightarrow> scalar \<times> vec" where
  "Sym_Norm normType half n A work =
     (if n = 0 then (Fin 0, work)
      else if half = Half_Both then (NaN, work)
      else case normType of
        NormType_Max \<Rightarrow>
          (if half = Half_Upper
           then (fold (\<lambda>j. fold (\<lambda>i value. norm_max value \<bar>A (i, j)\<bar>) [0..j])
                   [0..int n - 1] (Fin 0), work)
           else (fold (\<lambda>j. fold (\<lambda>i value. norm_max value \<bar>A (i, j)\<bar>) [j..int n - 1])
                   [0..int n - 1] (Fin 0), work))
      | NormType_Frob \<Rightarrow>
          (let ssq = (Fin 0, Fin 1);
               ssq = (if half = Half_Upper
                      then fold (\<lambda>j ssq.
                             Aux_CombSsq2 ssq
                               (Vec_SmSqr (nat ((j - 1) + 1)) (\<lambda>k. A (k, j)) (Fin 0, Fin 1)))
                           [1..int n - 1] ssq
                      else fold (\<lambda>j ssq.
                             Aux_CombSsq2 ssq
                               (Vec_SmSqr (nat (int n - (j + 1))) (\<lambda>k. A (j + 1 + k, j))
                                  (Fin 0, Fin 1)))
                           [0..int n - 2] ssq);
               ssq = (fst ssq, snd ssq + snd ssq);
               ssq = Aux_CombSsq2 ssq (Vec_SmSqr n (\<lambda>k. A (k, k)) (Fin 0, Fin 1))
           in (fst ssq * Sqrt (snd ssq), work))
      | _ \<Rightarrow>
          (if half = Half_Upper
           then (let work1 =
                       fold (\<lambda>j work.
                         let (sum, work) =
                               fold (\<lambda>i (sum, work).
                                 let aij = \<bar>A (i, j)\<bar>
                                 in (sum + aij, work(i := work i + aij)))
                               [0..j - 1] (Fin 0, work)
                         in work(j := sum + \<bar>A (j, j)\<bar>))
                       [0..int n - 1] work
                 in (fold (\<lambda>i value. norm_max value (work1 i)) [0..int n - 1] (Fin 0), work1))
           else (let work0 = fold (\<lambda>i work. work(i := Fin 0)) [0..int n - 1] work
                 in fold (\<lambda>j (value, work).
                      let (sum, work) =
                            fold (\<lambda>i (sum, work).
                              let aij = \<bar>A (i, j)\<bar>
                              in (sum + aij, work(i := work i + aij)))
                            [j + 1..int n - 1] (work j + \<bar>A (j, j)\<bar>, work)
                      in (norm_max value sum, work))
                    [0..int n - 1] (Fin 0, work0))))"

definition Syt_Norm :: "NormType \<Rightarrow> nat \<Rightarrow> vec \<Rightarrow> vec \<Rightarrow> scalar" where
  "Syt_Norm normType n d e =
     (if n = 0 then Fin 0
      else case normType of
        NormType_Max \<Rightarrow>
          fold (\<lambda>i anorm. norm_max (norm_max anorm \<bar>d i\<bar>) \<bar>e i\<bar>) [0..int n - 2]
            \<bar>d (int n - 1)\<bar>
      | NormType_Frob \<Rightarrow>
          (let ss = (Fin 0, Fin 0);
               ss = (if n > 1
                     then (let ss = Vec_SmSqr (n - 1) e ss in (fst ss, snd ss * Fin 2))
                     else ss);
               ss = Vec_SmSqr n d ss
           in fst ss * Sqrt (snd ss))
      | _ \<Rightarrow>
          (if n = 1 then \<bar>d 0\<bar>
           else fold (\<lambda>i anorm. norm_max anorm (\<bar>d i\<bar> + \<bar>e i\<bar> + \<bar>e (i - 1)\<bar>)) [1..int n - 2]
                  (norm_max (\<bar>d 0\<bar> + \<bar>e 0\<bar>) (\<bar>e (int n - 2)\<bar> + \<bar>d (int n - 1)\<bar>))))"

section \<open>Safe rescaling (\<open>Vec_Rescl\<close>)\<close>

text \<open>
  The \<open>do \<dots> while (!done)\<close> loop of \<open>Vec_Rescl\<close>, in the branch taken for a floating-point
  scalar (\<open>isExact<T_Scalar>\<close> is \<open>false\<close>). The loop has no bound of its own, so it is a
  partial function: \<open>None\<close> stands for a loop that never ends.
\<close>

partial_function (option) Vec_Rescl_loop ::
  "scalar \<Rightarrow> nat \<Rightarrow> int \<Rightarrow> scalar \<Rightarrow> scalar \<Rightarrow> vec \<Rightarrow> vec option" where
  "Vec_Rescl_loop smlnum n x_s cfromc ctoc x =
     (let bignum = Inv smlnum;
          cfrom1 = cfromc * smlnum
      in if s_eq cfrom1 cfromc
         then Some (Vec_Scale n (ctoc / cfromc) x x_s)
         else let cto1 = ctoc / bignum
              in if s_eq cto1 ctoc
                 then Some (Vec_Scale n ctoc x x_s)
                 else if \<bar>ctoc\<bar> < \<bar>cfrom1\<bar> \<and> \<not> IsZero ctoc
                 then Vec_Rescl_loop smlnum n x_s cfrom1 ctoc (Vec_Scale n smlnum x x_s)
                 else if \<bar>cfromc\<bar> < \<bar>cto1\<bar>
                 then Vec_Rescl_loop smlnum n x_s cfromc cto1 (Vec_Scale n bignum x x_s)
                 else Some (Vec_Scale n (ctoc / cfromc) x x_s))"

definition Vec_Rescl ::
  "limits \<Rightarrow> scalar \<Rightarrow> scalar \<Rightarrow> nat \<Rightarrow> vec \<Rightarrow> nat \<Rightarrow> (signal + vec) option" where
  "Vec_Rescl L cfrom cto n x x_s =
     (if IsZero cfrom \<or> IsUndefined cfrom then Some (Inl (BadArgument ''Vec_Rescl'' 1))
      else if IsUndefined cto then Some (Inl (BadArgument ''Vec_Rescl'' 2))
      else if n = 0 then Some (Inr x)
      else if s_eq cfrom cto then Some (Inr x)
      else map_option Inr (Vec_Rescl_loop (minValue L) n (int x_s) cfrom cto x))"

section \<open>Reflector generation (\<open>Rfl_VecGen\<close>)\<close>

text \<open>
  \<open>Vec_Norm2\<close>, in the branch for a floating-point scalar: \<open>Vec_Norm2_step\<close> is the body of
  its \<open>while (n--)\<close> loop on the state \<open>(scale, ssq, norm)\<close>.
\<close>

definition Vec_Norm2_step :: "vec \<Rightarrow> nat \<Rightarrow> scalar \<times> scalar \<times> scalar \<Rightarrow> scalar \<times> scalar \<times> scalar" where
  "Vec_Norm2_step x i st =
     (let scale = fst st; ssq = fst (snd st);
          xi = \<bar>x (int i)\<bar>;
          (scale, ssq) =
            (if \<not> IsZero xi
             then (if xi \<le> scale
                   then (scale, ssq + Sqr (xi / scale))
                   else (xi, 1 + ssq * Sqr (scale / xi)))
             else (scale, ssq))
      in (scale, ssq, scale * Sqrt ssq))"

definition Vec_Norm2 :: "nat \<Rightarrow> vec \<Rightarrow> scalar" where
  "Vec_Norm2 n x =
     (if n = 0 then Fin 0
      else if n = 1 then \<bar>x 0\<bar>
      else snd (snd (fold (Vec_Norm2_step x) [0..<n] (Fin 0, Fin 1, Fin 0))))"

text \<open>
  The rescaling loop \<open>do { ++knt; \<dots> } while (Abs(beta) < safmin && knt < 20)\<close> on the
  state \<open>(knt, x, beta, alpha)\<close>.
\<close>

function Rfl_VecGen_rescale ::
  "scalar \<Rightarrow> scalar \<Rightarrow> nat \<Rightarrow> int \<Rightarrow> int \<Rightarrow> vec \<Rightarrow> scalar \<Rightarrow> scalar
     \<Rightarrow> int \<times> vec \<times> scalar \<times> scalar" where
  "Rfl_VecGen_rescale safmin rsafmn n x_s knt x beta alpha =
     (let knt = knt + 1;
          x = Vec_Scale (n - 1) rsafmn x x_s;
          beta = beta * rsafmn;
          alpha = alpha * rsafmn
      in if \<bar>beta\<bar> < safmin \<and> knt < 20
         then Rfl_VecGen_rescale safmin rsafmn n x_s knt x beta alpha
         else (knt, x, beta, alpha))"
  by pat_completeness auto
termination
  by (relation "measure (\<lambda>(safmin, rsafmn, n, x_s, knt, x, beta, alpha). nat (20 - knt))") auto

declare Rfl_VecGen_rescale.simps [simp del]

definition Rfl_VecGen ::
  "limits \<Rightarrow> nat \<Rightarrow> scalar \<Rightarrow> vec \<Rightarrow> int \<Rightarrow> scalar \<Rightarrow> scalar \<times> vec \<times> scalar" where
  "Rfl_VecGen L n alpha x x_s tau =
     (if n = 0 then (alpha, x, tau)
      else if n = 1 then (alpha, x, Fin 0)
      else
        let xnorm = Vec_Norm2 (n - 1) (VecView x x_s)
        in if IsZero xnorm then (alpha, x, Fin 0)
           else
             let beta = - CopySign (Hypot alpha xnorm) alpha;
                 safmin = minValue L;
                 (knt, x, beta, alpha) =
                   (if \<bar>beta\<bar> < safmin
                    then (let rsafmn = Inv safmin;
                              (knt, x, beta, alpha) =
                                Rfl_VecGen_rescale safmin rsafmn n x_s 0 x beta alpha;
                              xnorm = Vec_Norm2 (n - 1) (VecView x x_s);
                              beta = - CopySign (Hypot alpha xnorm) alpha
                          in (knt, x, beta, alpha))
                    else (0, x, beta, alpha));
                 tau = (beta - alpha) / beta;
                 x = Vec_Scale (n - 1) (Inv (alpha - beta)) x x_s;
                 beta = fold (\<lambda>j beta. beta * safmin) [0..<nat knt] beta
             in (beta, x, tau))"

subsection \<open>Predicates used in the verification of \<open>Rfl_VecGen\<close>\<close>

text \<open>
  \<open>finS N x_s x\<close>: the \<open>N\<close> elements of the strided vector are real numbers; \<open>nzS N x_s x\<close>:
  one of them is not zero; \<open>norm2_inv\<close>: the loop invariant of \<open>Vec_Norm2\<close>.
\<close>

definition norm2_inv :: "vec \<Rightarrow> nat \<Rightarrow> scalar \<times> scalar \<times> scalar \<Rightarrow> bool" where
  "norm2_inv x k st = (\<exists>sc q. st = (Fin sc, Fin q, Fin (sc * sqrt q)) \<and> 0 \<le> sc \<and> 1 \<le> q
      \<and> (sc = 0 \<longleftrightarrow> (\<forall>i<k. x (int i) = Fin 0)))"

definition finS :: "nat \<Rightarrow> int \<Rightarrow> vec \<Rightarrow> bool" where
  "finS N x_s x = (\<forall>i<N. is_fin (x (int i * x_s)))"

definition nzS :: "nat \<Rightarrow> int \<Rightarrow> vec \<Rightarrow> bool" where
  "nzS N x_s x = (\<exists>i<N. x (int i * x_s) \<noteq> Fin 0)"

section \<open>The symmetric tridiagonal eigensolver\<close>

subsection \<open>Closed-form 2-by-2 kernels and plane rotations\<close>

definition oneHalf :: scalar where
  "oneHalf = Inv (Fin 2)"

definition Aux_Eig2 :: "scalar \<Rightarrow> scalar \<Rightarrow> scalar \<Rightarrow> scalar \<times> scalar" where
  "Aux_Eig2 a b c =
     (let sm = a + c; df = a - c; adf = \<bar>df\<bar>; tb = b + b; ab = \<bar>tb\<bar>;
          (acmx, acmn) = (if \<bar>c\<bar> < \<bar>a\<bar> then (a, c) else (c, a));
          rt = (if ab < adf then adf * Hypot 1 (ab / adf)
                else if adf < ab then ab * Hypot 1 (adf / ab)
                else ab * Sqrt (Fin 2))
      in if IntSignOrZero sm = - 1 then
           (let rt1 = oneHalf * (sm - rt); rt2 = (acmx / rt1) * acmn - (b / rt1) * b
            in (rt1, rt2))
         else if IntSignOrZero sm = 1 then
           (let rt1 = oneHalf * (sm + rt); rt2 = (acmx / rt1) * acmn - (b / rt1) * b
            in (rt1, rt2))
         else (oneHalf * rt, (- oneHalf) * rt))"

definition Aux_EigVec2 ::
  "scalar \<Rightarrow> scalar \<Rightarrow> scalar \<Rightarrow> scalar \<times> scalar \<times> scalar \<times> scalar" where
  "Aux_EigVec2 a b c =
     (let sm = a + c; df = a - c; adf = \<bar>df\<bar>; tb = b + b; ab = \<bar>tb\<bar>;
          (acmx, acmn) = (if \<bar>c\<bar> < \<bar>a\<bar> then (a, c) else (c, a));
          rt = (if ab < adf then adf * Hypot 1 (ab / adf)
                else if adf < ab then ab * Hypot 1 (adf / ab)
                else ab * Sqrt (Fin 2));
          (rt1, rt2, sgn1) =
            (if IntSignOrZero sm = - 1 then
               (let rt1 = oneHalf * (sm - rt); rt2 = (acmx / rt1) * acmn - (b / rt1) * b
                in (rt1, rt2, - 1 :: int))
             else if IntSignOrZero sm = 1 then
               (let rt1 = oneHalf * (sm + rt); rt2 = (acmx / rt1) * acmn - (b / rt1) * b
                in (rt1, rt2, 1))
             else (oneHalf * rt, (- oneHalf) * rt, 1));
          (cs, sgn2) = (if IntSignOrZero df \<ge> 0 then (df + rt, 1 :: int) else (df - rt, - 1));
          acs = \<bar>cs\<bar>;
          (cs1, sn1) =
            (if ab < acs then
               (let ct = (- tb) / cs; sn1 = Inv (Hypot 1 ct) in (ct * sn1, sn1))
             else if IsZero ab then (1, 0)
             else (let tn = (- cs) / tb; cs1 = Inv (Hypot 1 tn) in (cs1, tn * cs1)));
          (cs1, sn1) = (if sgn1 = sgn2 then (- sn1, cs1) else (cs1, sn1))
      in (rt1, rt2, cs1, sn1))"

text \<open>
  \<open>Aux_PlnRot2\<close>, in the branch for a floating-point scalar. Its two rescaling loops
  \<open>do { ++count; f1 *= \<dots>; g1 *= \<dots>; scale = Max(Abs(f1), Abs(g1)); } while (\<dots>)\<close> have no
  bound of their own and are partial functions (\<open>None\<close>: the loop never ends); \<open>count\<close> is
  taken as a natural number.
\<close>

partial_function (option) PlnRot2_scale_down ::
  "scalar \<Rightarrow> scalar \<Rightarrow> nat \<Rightarrow> scalar \<Rightarrow> scalar \<Rightarrow> (nat \<times> scalar \<times> scalar) option" where
  "PlnRot2_scale_down safmin safmax count f1 g1 =
     (let count = count + 1; f1 = f1 * safmin; g1 = g1 * safmin; scale = Max2 \<bar>f1\<bar> \<bar>g1\<bar>
      in if scale \<le> safmax then PlnRot2_scale_down safmin safmax count f1 g1
         else Some (count, f1, g1))"

partial_function (option) PlnRot2_scale_up ::
  "scalar \<Rightarrow> scalar \<Rightarrow> nat \<Rightarrow> scalar \<Rightarrow> scalar \<Rightarrow> (nat \<times> scalar \<times> scalar) option" where
  "PlnRot2_scale_up safmin safmax count f1 g1 =
     (let count = count + 1; f1 = f1 * safmax; g1 = g1 * safmax; scale = Max2 \<bar>f1\<bar> \<bar>g1\<bar>
      in if scale \<le> safmin then PlnRot2_scale_up safmin safmax count f1 g1
         else Some (count, f1, g1))"

definition Aux_PlnRot2 :: "limits \<Rightarrow> scalar \<Rightarrow> scalar \<Rightarrow> (scalar \<times> scalar \<times> scalar) option" where
  "Aux_PlnRot2 L f g =
     (if IsZero g then Some (1, 0, f)
      else if IsZero f then Some (0, 1, g)
      else
        let safmin = minValue L; safmax = maxValue L;
            scale = Max2 \<bar>f\<bar> \<bar>g\<bar>
        in map_option
             (\<lambda>(cs, sn, r). if \<bar>g\<bar> < \<bar>f\<bar> \<and> IntSignOrZero cs < 0 then (- cs, - sn, - r)
                             else (cs, sn, r))
             (if safmax \<le> scale then
                (case PlnRot2_scale_down safmin safmax 0 f g of
                   None \<Rightarrow> None
                 | Some (count, f1, g1) \<Rightarrow>
                     (let r = Hypot f1 g1; cs = f1 / r; sn = g1 / r
                      in Some (cs, sn, fold (\<lambda>j r. r * safmax) [0..<count] r)))
              else if scale \<le> safmin then
                (case PlnRot2_scale_up safmin safmax 0 f g of
                   None \<Rightarrow> None
                 | Some (count, f1, g1) \<Rightarrow>
                     (let r = Hypot f1 g1; cs = f1 / r; sn = g1 / r
                      in Some (cs, sn, fold (\<lambda>j r. r * safmin) [0..<count] r)))
              else (let r = Hypot f g; cs = f / r; sn = g / r in Some (cs, sn, r))))"

subsection \<open>Outcomes, configuration and scans\<close>

text \<open>
  What a loop or a routine of the solver comes to: \<open>Next st\<close>, the loop is left normally with
  state \<open>st\<close>; \<open>Return b st\<close>, \<open>Solve\<close> returns the boolean \<open>b\<close> with the arrays as in \<open>st\<close>;
  \<open>Throw\<close>, an exception leaves the routine; \<open>Diverge\<close>, a loop of a collaborator never ends.
\<close>

datatype 'a outcome = Next 'a | Return bool 'a | Throw signal | Diverge

record Config =
  maxIterationCount :: "64 word"
  zeroTol :: scalar

text \<open>The outer scan \<open>for( ; k0 < n-1; ++k0 )\<close> for the end of the block; it may zero \<open>e[k0]\<close>.\<close>

function split_scan :: "scalar \<Rightarrow> nat \<Rightarrow> vec \<Rightarrow> vec \<Rightarrow> int \<Rightarrow> int \<times> vec" where
  "split_scan tol n d e k0 =
     (if k0 < int n - 1 then
        (let ek0 = \<bar>e k0\<bar>
         in if IsZero ek0 then (k0, e)
            else let errk0 = tol * Sqrt \<bar>d k0\<bar> * Sqrt \<bar>d (k0 + 1)\<bar>
                 in if ek0 \<le> errk0 then (k0, e(k0 := Fin 0))
                    else split_scan tol n d e (k0 + 1))
      else (k0, e))"
  by pat_completeness auto
termination
  by (relation "measure (\<lambda>(tol, n, d, e, k0). nat (int n - 1 - k0))") auto

declare split_scan.simps [simp del]

text \<open>The inner scans for a small off-diagonal element, \<open>for( k0 = k; k0 <= (kend-1); ++k0 )\<close>
  in the QL iteration and \<open>for( k0 = k; k0 >= (kend+1); --k0 )\<close> in the QR iteration.\<close>

function ql_scan :: "scalar \<Rightarrow> scalar \<Rightarrow> vec \<Rightarrow> vec \<Rightarrow> int \<Rightarrow> int \<Rightarrow> int" where
  "ql_scan eps2 safmin d e kend k0 =
     (if k0 \<le> kend - 1 then
        (let ek02 = Sqr (e k0); errk02 = eps2 * \<bar>d k0 * d (k0 + 1)\<bar>
         in if ek02 \<le> errk02 + safmin then k0
            else ql_scan eps2 safmin d e kend (k0 + 1))
      else k0)"
  by pat_completeness auto
termination
  by (relation "measure (\<lambda>(eps2, safmin, d, e, kend, k0). nat (kend - k0))") auto

declare ql_scan.simps [simp del]

function qr_scan :: "scalar \<Rightarrow> scalar \<Rightarrow> vec \<Rightarrow> vec \<Rightarrow> int \<Rightarrow> int \<Rightarrow> int" where
  "qr_scan eps2 safmin d e kend k0 =
     (if k0 \<ge> kend + 1 then
        (let ek02 = Sqr (e (k0 - 1)); errk02 = eps2 * \<bar>d k0 * d (k0 - 1)\<bar>
         in if ek02 \<le> errk02 + safmin then k0
            else qr_scan eps2 safmin d e kend (k0 - 1))
      else k0)"
  by pat_completeness auto
termination
  by (relation "measure (\<lambda>(eps2, safmin, d, e, kend, k0). nat (k0 - kend))") auto

declare qr_scan.simps [simp del]

lemma split_scan_ge: "k0 \<le> fst (split_scan tol n d e k0)"
proof (induction tol n d e k0 rule: split_scan.induct)
  case (1 tol n d e k0)
  show ?case
  proof (cases "k0 < int n - 1 \<and> \<not> IsZero \<bar>e k0\<bar>
      \<and> \<not> \<bar>e k0\<bar> \<le> tol * Sqrt \<bar>d k0\<bar> * Sqrt \<bar>d (k0 + 1)\<bar>")
    case True
    then have eq: "split_scan tol n d e k0 = split_scan tol n d e (k0 + 1)"
      by (subst split_scan.simps) (simp add: Let_def)
    from 1 [OF _ refl _ refl] True show ?thesis
      unfolding eq by force
  next
    case False
    then have "fst (split_scan tol n d e k0) = k0"
      by (subst split_scan.simps) (auto simp: Let_def)
    then show ?thesis by simp
  qed
qed

subsection \<open>\<open>Syt_EigQR::Solve\<close>: eigenvalues only\<close>

text \<open>
  The implicit-shift sweeps. \<open>QL_sweep\<close> is the loop \<open>for( Index i = k0-1; i >= k; --i )\<close> on
  the variables \<open>(g, c, s, p, d, e)\<close>, and \<open>QR_sweep\<close> the loop
  \<open>for( Index i = k0; i <= (k-1); ++i )\<close>; \<open>None\<close> when \<open>Aux_PlnRot2\<close> does not return.
\<close>

function QL_sweep ::
  "limits \<Rightarrow> int \<Rightarrow> int \<Rightarrow> int \<Rightarrow> scalar \<times> scalar \<times> scalar \<times> scalar \<times> vec \<times> vec
     \<Rightarrow> (scalar \<times> scalar \<times> scalar \<times> scalar \<times> vec \<times> vec) option" where
  "QL_sweep L k0 k i (g, c, s, p, d, e) =
     (if i \<ge> k then
        (let f = s * e i; b = c * e i
         in case Aux_PlnRot2 L g f of
              None \<Rightarrow> None
            | Some (c, s, r) \<Rightarrow>
                (let e = (if i \<noteq> k0 - 1 then e(i + 1 := r) else e);
                     g = d (i + 1) - p;
                     r = (d i - g) * s + Fin 2 * c * b;
                     p = s * r;
                     d = d(i + 1 := g + p);
                     g = c * r - b
                 in QL_sweep L k0 k (i - 1) (g, c, s, p, d, e)))
      else Some (g, c, s, p, d, e))"
  by pat_completeness auto
termination
  by (relation "measure (\<lambda>(L, k0, k, i, st). nat (i - k + 1))") auto

declare QL_sweep.simps [simp del]

function QR_sweep ::
  "limits \<Rightarrow> int \<Rightarrow> int \<Rightarrow> int \<Rightarrow> scalar \<times> scalar \<times> scalar \<times> scalar \<times> vec \<times> vec
     \<Rightarrow> (scalar \<times> scalar \<times> scalar \<times> scalar \<times> vec \<times> vec) option" where
  "QR_sweep L k0 k i (g, c, s, p, d, e) =
     (if i \<le> k - 1 then
        (let f = s * e i; b = c * e i
         in case Aux_PlnRot2 L g f of
              None \<Rightarrow> None
            | Some (c, s, r) \<Rightarrow>
                (let e = (if i \<noteq> k0 then e(i - 1 := r) else e);
                     g = d i - p;
                     r = (d (i + 1) - g) * s + Fin 2 * c * b;
                     p = s * r;
                     d = d(i := g + p);
                     g = c * r - b
                 in QR_sweep L k0 k (i + 1) (g, c, s, p, d, e)))
      else Some (g, c, s, p, d, e))"
  by pat_completeness auto
termination
  by (relation "measure (\<lambda>(L, k0, k, i, st). nat (k - i))") auto

declare QR_sweep.simps [simp del]

text \<open>
  One shifted sweep of the QL iteration on the block from \<open>k\<close> to \<open>k0\<close>: form the shift,
  run the loop, then \<open>d[k] -= p; e[k] = g\<close>; and the same for the QR iteration.
\<close>

definition QL_step :: "limits \<Rightarrow> int \<Rightarrow> int \<Rightarrow> vec \<Rightarrow> vec \<Rightarrow> (vec \<times> vec) option" where
  "QL_step L k0 k d e =
     (let f = (d (k + 1) - d k) / (Fin 2 * e k);
          r = Hypot f 1;
          g = d k0 - d k + (e k / (f + CopySign r f))
      in case QL_sweep L k0 k (k0 - 1) (g, 1, 1, Fin 0, d, e) of
           None \<Rightarrow> None
         | Some (g, c, s, p, d, e) \<Rightarrow> Some (d(k := d k - p), e(k := g)))"

definition QR_step :: "limits \<Rightarrow> int \<Rightarrow> int \<Rightarrow> vec \<Rightarrow> vec \<Rightarrow> (vec \<times> vec) option" where
  "QR_step L k0 k d e =
     (let f = (d (k - 1) - d k) / (Fin 2 * e (k - 1));
          r = Hypot f 1;
          g = d k0 - d k + (e (k - 1) / (f + CopySign r f))
      in case QR_sweep L k0 k k0 (g, 1, 1, Fin 0, d, e) of
           None \<Rightarrow> None
         | Some (g, c, s, p, d, e) \<Rightarrow> Some (d(k := d k - p), e(k - 1 := g)))"

text \<open>
  The head of an iteration of \<open>while( k <= kend )\<close>: the scan for a small off-diagonal
  element (skipped when \<open>k = kend\<close>) and \<open>if( k0 < kend ) e[k0] = zero\<close>; and of
  \<open>while( k >= kend )\<close>, with \<open>if( k0 > kend ) e[k0-1] = zero\<close>.
\<close>

definition QL_split :: "scalar \<Rightarrow> scalar \<Rightarrow> vec \<Rightarrow> vec \<Rightarrow> int \<Rightarrow> int \<Rightarrow> int \<times> vec" where
  "QL_split eps2 safmin d e kend k =
     (let k0 = (if k \<noteq> kend then ql_scan eps2 safmin d e kend k else kend)
      in (k0, if k0 < kend then e(k0 := Fin 0) else e))"

definition QR_split :: "scalar \<Rightarrow> scalar \<Rightarrow> vec \<Rightarrow> vec \<Rightarrow> int \<Rightarrow> int \<Rightarrow> int \<times> vec" where
  "QR_split eps2 safmin d e kend k =
     (let k0 = (if k \<noteq> kend then qr_scan eps2 safmin d e kend k else kend)
      in (k0, if k0 > kend then e(k0 - 1 := Fin 0) else e))"

text \<open>
  The loops \<open>while( k <= kend )\<close> (QL) and \<open>while( k >= kend )\<close> (QR). The sweep counter
  \<open>count\<close> and its bound \<open>maxCount\<close> are of type \<open>Size\<close>, 64-bit words.
\<close>

function QL_loop ::
  "limits \<Rightarrow> scalar \<Rightarrow> 64 word \<Rightarrow> int \<Rightarrow> 64 word \<Rightarrow> int \<Rightarrow> vec \<Rightarrow> vec
     \<Rightarrow> (64 word \<times> vec \<times> vec) outcome" where
  "QL_loop L eps2 maxCount kend count k d e =
     (if k \<le> kend then
        (case QL_split eps2 (minValue L) d e kend k of (k0, e) \<Rightarrow>
           if k0 = k then QL_loop L eps2 maxCount kend count (k + 1) d e
           else if k0 = k + 1 then
             (case Aux_Eig2 (d k) (e k) (d (k + 1)) of (rt1, rt2) \<Rightarrow>
                QL_loop L eps2 maxCount kend count (k + 2)
                  (d(k := rt1, k + 1 := rt2)) (e(k := Fin 0)))
           else if count = maxCount then Return False (count, d, e)
           else (case QL_step L k0 k d e of
                   None \<Rightarrow> Diverge
                 | Some (d, e) \<Rightarrow> QL_loop L eps2 maxCount kend (count + 1) k d e))
      else Next (count, d, e))"
  by pat_completeness auto

lemma count_measure:
  fixes count maxCount :: "64 word"
  assumes "count \<noteq> maxCount"
  shows "unat (maxCount - (count + 1)) < unat (maxCount - count)"
proof -
  have "maxCount - count \<noteq> 0" using assms by simp
  then show ?thesis
    by (metis (no_types) diff_diff_add unat_minus_one diff_less unat_gt_0 zero_less_one
        word_greater_zero_iff)
qed

termination QL_loop
  by (relation "measures [\<lambda>(L, eps2, maxCount, kend, count, k, d, e). unat (maxCount - count),
                          \<lambda>(L, eps2, maxCount, kend, count, k, d, e). nat (kend + 1 - k)]")
     (auto simp: count_measure)

declare QL_loop.simps [simp del]

function QR_loop ::
  "limits \<Rightarrow> scalar \<Rightarrow> 64 word \<Rightarrow> int \<Rightarrow> 64 word \<Rightarrow> int \<Rightarrow> vec \<Rightarrow> vec
     \<Rightarrow> (64 word \<times> vec \<times> vec) outcome" where
  "QR_loop L eps2 maxCount kend count k d e =
     (if k \<ge> kend then
        (case QR_split eps2 (minValue L) d e kend k of (k0, e) \<Rightarrow>
           if k0 = k then QR_loop L eps2 maxCount kend count (k - 1) d e
           else if k0 = k - 1 then
             (case Aux_Eig2 (d (k - 1)) (e (k - 1)) (d k) of (rt1, rt2) \<Rightarrow>
                QR_loop L eps2 maxCount kend count (k - 2)
                  (d(k - 1 := rt1, k := rt2)) (e(k - 1 := Fin 0)))
           else if count = maxCount then Return False (count, d, e)
           else (case QR_step L k0 k d e of
                   None \<Rightarrow> Diverge
                 | Some (d, e) \<Rightarrow> QR_loop L eps2 maxCount kend (count + 1) k d e))
      else Next (count, d, e))"
  by pat_completeness auto
termination
  by (relation "measures [\<lambda>(L, eps2, maxCount, kend, count, k, d, e). unat (maxCount - count),
                          \<lambda>(L, eps2, maxCount, kend, count, k, d, e). nat (k + 1 - kend)]")
     (auto simp: count_measure)

declare QR_loop.simps [simp del]

text \<open>A call of \<open>Vec_Rescl\<close> inside the solver, followed by the rest of the routine.\<close>

definition rescl :: "(signal + vec) option \<Rightarrow> (vec \<Rightarrow> 'a outcome) \<Rightarrow> 'a outcome" where
  "rescl r cont = (case r of None \<Rightarrow> Diverge | Some (Inl sg) \<Rightarrow> Throw sg | Some (Inr x) \<Rightarrow> cont x)"

text \<open>
  The work on one unreduced block, rows \<open>k1\<close> to \<open>k0\<close>, of the outer loop: scale the block,
  choose between QL and QR, iterate, and undo the scaling of \<open>d\<close>.
\<close>

definition EigQR_block ::
  "limits \<Rightarrow> scalar \<Rightarrow> scalar \<Rightarrow> scalar \<Rightarrow> 64 word \<Rightarrow> 64 word \<Rightarrow> int \<Rightarrow> int \<Rightarrow> vec \<Rightarrow> vec
     \<Rightarrow> (64 word \<times> vec \<times> vec) outcome" where
  "EigQR_block L ssfmin ssfmax eps2 maxCount count k1 k0 d e =
     (let k = k1; k1_prev = k1; kend = k0; kend_prev = kend
      in if kend = k then Next (count, d, e)
         else
           let anorm = Syt_Norm NormType_Max (nat (kend - k + 1)) (ptr_add d k) (ptr_add e k)
           in if IsZero anorm then Next (count, d, e)
              else
                let scale = Clamp anorm ssfmin ssfmax
                in rescl (Vec_Rescl L anorm scale (nat (kend - k + 1)) (ptr_add d k) 1) (\<lambda>dv.
                   rescl (Vec_Rescl L anorm scale (nat (kend - k)) (ptr_add e k) 1) (\<lambda>ev.
                     let d = ptr_store dv k; e = ptr_store ev k;
                         (kend, k) = (if \<bar>d kend\<bar> < \<bar>d k\<bar> then (k1_prev, kend_prev)
                                      else (kend, k))
                     in case (if kend \<ge> k then QL_loop L eps2 maxCount kend count k d e
                              else QR_loop L eps2 maxCount kend count k d e) of
                          Next (count, d, e) \<Rightarrow>
                            rescl (Vec_Rescl L scale anorm
                                     (nat ((kend_prev + 1) - (k1_prev + 1) + 1))
                                     (ptr_add d k1_prev) 1)
                              (\<lambda>dv. Next (count, ptr_store dv k1_prev, e))
                        | Return b st \<Rightarrow> Return b st
                        | Throw sg \<Rightarrow> Throw sg
                        | Diverge \<Rightarrow> Diverge)))"

lemma split_scan_fwd: "split_scan tol n d e k1 = (k0, e') \<Longrightarrow> k1 \<le> k0"
  using split_scan_ge [of k1 tol n d e] by simp

text \<open>The outer loop \<open>while( count < maxCount )\<close>.\<close>

function EigQR_outer ::
  "limits \<Rightarrow> Config \<Rightarrow> nat \<Rightarrow> scalar \<Rightarrow> scalar \<Rightarrow> scalar \<Rightarrow> 64 word \<Rightarrow> 64 word \<Rightarrow> int \<Rightarrow> vec \<Rightarrow> vec
     \<Rightarrow> (64 word \<times> vec \<times> vec) outcome" where
  "EigQR_outer L cfg n ssfmin ssfmax eps2 maxCount count k1 d e =
     (if count < maxCount then
        (if k1 > int n - 1 then Return True (count, d, e)
         else
           (case split_scan (zeroTol cfg) n d (if k1 > 0 then e(k1 - 1 := Fin 0) else e) k1 of
              (k0, e) \<Rightarrow>
                (case EigQR_block L ssfmin ssfmax eps2 maxCount count k1 k0 d e of
                   Next (count, d, e) \<Rightarrow>
                     EigQR_outer L cfg n ssfmin ssfmax eps2 maxCount count (k0 + 1) d e
                 | Return b st \<Rightarrow> Return b st
                 | Throw sg \<Rightarrow> Throw sg
                 | Diverge \<Rightarrow> Diverge)))
      else Return True (count, d, e))"
  by pat_completeness auto
termination
  by (relation "measure (\<lambda>(L, cfg, n, ssfmin, ssfmax, eps2, maxCount, count, k1, d, e).
                   nat (int n - k1))")
     (auto dest: split_scan_fwd split_scan_fwd [OF sym])

declare EigQR_outer.simps [simp del]

text \<open>
  \<open>Syt_EigQR::Solve\<close>, with the final value of the sweep counter \<open>count\<close> beside the
  arrays (\<open>Syt_EigQR_run\<close>) and as the routine returns (\<open>Syt_EigQR_Solve\<close>). The arrays
  \<open>d\<close> and \<open>e\<close> do not overlap.
\<close>

definition Syt_EigQR_run ::
  "limits \<Rightarrow> Config \<Rightarrow> nat \<Rightarrow> vec \<Rightarrow> vec \<Rightarrow> (64 word \<times> vec \<times> vec) outcome" where
  "Syt_EigQR_run L cfg n d e =
     (if 0 = n then Return True (0, d, e)
      else
        let maxCount = of_nat n * maxIterationCount cfg;
            eps2 = Sqr (zeroTol cfg);
            safmin = minValue L;
            safmax = Inv safmin;
            ssfmin = Sqrt safmin / eps2;
            ssfmax = Sqrt safmax / Fin 3
        in EigQR_outer L cfg n ssfmin ssfmax eps2 maxCount 0 0 d e)"

definition Syt_EigQR_Solve ::
  "limits \<Rightarrow> Config \<Rightarrow> nat \<Rightarrow> vec \<Rightarrow> vec \<Rightarrow> (vec \<times> vec) outcome" where
  "Syt_EigQR_Solve L cfg n d e = map_outcome (\<lambda>(count, d, e). (d, e)) (Syt_EigQR_run L cfg n d e)"

text \<open>The configuration a solver starts with: \<open>maxIterationCount = 64\<close> and
  \<open>zeroTol = std::numeric_limits<T_Scalar>::epsilon()\<close>.\<close>

definition default_config :: "limits \<Rightarrow> Config" where
  "default_config L = \<lparr>maxIterationCount = 64, zeroTol = epsilon L\<rparr>"

text \<open>Sample data: the diagonal \<open>(1, 2, 2, \<dots>)\<close>, an off-diagonal of ones, and small
  limits of a scalar type.\<close>

definition d_two :: vec where
  "d_two = (\<lambda>i. if i = 0 then Fin 1 else Fin 2)"

definition e_one :: vec where
  "e_one = (\<lambda>i. Fin 1)"

definition toy_limits :: limits where
  "toy_limits = \<lparr>minValue = Fin (1 / 2), maxValue = Fin 2, epsilon = Fin (1 / 2)\<rparr>"

subsection \<open>\<open>Syt_EigVecQR::Solve\<close>: eigenvalues and eigenvectors\<close>

text \<open>
  The solver with eigenvectors carries the matrix \<open>Z\<close> and the work array, of which
  \<open>C = work\<close> and \<open>S = work + n\<close> hold the cosines and sines of a sweep: \<open>C[i]\<close> is
  \<open>work[i]\<close> and \<open>S[i]\<close> is \<open>work[n + i]\<close>. \<open>Z_Blk(i0, j0)\<close> is the block of \<open>Z\<close> whose
  element \<open>(0, 0)\<close> is \<open>Z(i0, j0)\<close>. The arrays \<open>d\<close>, \<open>e\<close>, \<open>work\<close> and \<open>Z\<close> do not overlap.
\<close>

definition blk_add :: "mat \<Rightarrow> int \<Rightarrow> int \<Rightarrow> mat" where
  "blk_add Z i0 j0 = (\<lambda>(i, j). Z (i0 + i, j0 + j))"

definition blk_store :: "mat \<Rightarrow> int \<Rightarrow> int \<Rightarrow> mat" where
  "blk_store B i0 j0 = (\<lambda>(i, j). B (i - i0, j - j0))"

function QLZ_sweep ::
  "limits \<Rightarrow> nat \<Rightarrow> int \<Rightarrow> int \<Rightarrow> int
     \<Rightarrow> scalar \<times> scalar \<times> scalar \<times> scalar \<times> vec \<times> vec \<times> vec
     \<Rightarrow> (scalar \<times> scalar \<times> scalar \<times> scalar \<times> vec \<times> vec \<times> vec) option" where
  "QLZ_sweep L n k0 k i (g, c, s, p, d, e, work) =
     (if i \<ge> k then
        (let f = s * e i; b = c * e i
         in case Aux_PlnRot2 L g f of
              None \<Rightarrow> None
            | Some (c, s, r) \<Rightarrow>
                (let e = (if i \<noteq> k0 - 1 then e(i + 1 := r) else e);
                     g = d (i + 1) - p;
                     r = (d i - g) * s + Fin 2 * c * b;
                     p = s * r;
                     d = d(i + 1 := g + p);
                     g = c * r - b;
                     work = work(i := c);
                     work = work(int n + i := - s)
                 in QLZ_sweep L n k0 k (i - 1) (g, c, s, p, d, e, work)))
      else Some (g, c, s, p, d, e, work))"
  by pat_completeness auto
termination
  by (relation "measure (\<lambda>(L, n, k0, k, i, st). nat (i - k + 1))") auto

declare QLZ_sweep.simps [simp del]

function QRZ_sweep ::
  "limits \<Rightarrow> nat \<Rightarrow> int \<Rightarrow> int \<Rightarrow> int
     \<Rightarrow> scalar \<times> scalar \<times> scalar \<times> scalar \<times> vec \<times> vec \<times> vec
     \<Rightarrow> (scalar \<times> scalar \<times> scalar \<times> scalar \<times> vec \<times> vec \<times> vec) option" where
  "QRZ_sweep L n k0 k i (g, c, s, p, d, e, work) =
     (if i \<le> k - 1 then
        (let f = s * e i; b = c * e i
         in case Aux_PlnRot2 L g f of
              None \<Rightarrow> None
            | Some (c, s, r) \<Rightarrow>
                (let e = (if i \<noteq> k0 then e(i - 1 := r) else e);
                     g = d i - p;
                     r = (d (i + 1) - g) * s + Fin 2 * c * b;
                     p = s * r;
                     d = d(i := g + p);
                     g = c * r - b;
                     work = work(i := c);
                     work = work(int n + i := s)
                 in QRZ_sweep L n k0 k (i + 1) (g, c, s, p, d, e, work)))
      else Some (g, c, s, p, d, e, work))"
  by pat_completeness auto
termination
  by (relation "measure (\<lambda>(L, n, k0, k, i, st). nat (k - i))") auto

declare QRZ_sweep.simps [simp del]

text \<open>
  A shifted sweep followed by the update of the eigenvectors,
  \<open>Mat_RotSeq( Side::Right, Pivot::Var, \<dots>, n, nn, C+k, S+k, Z_Blk(0,k), Z_ld )\<close>.
\<close>

definition QLZ_step ::
  "limits \<Rightarrow> nat \<Rightarrow> int \<Rightarrow> int \<Rightarrow> vec \<Rightarrow> vec \<Rightarrow> mat \<Rightarrow> vec
     \<Rightarrow> (signal + vec \<times> vec \<times> mat \<times> vec) option" where
  "QLZ_step L n k0 k d e Z work =
     (let f = (d (k + 1) - d k) / (Fin 2 * e k);
          r = Hypot f 1;
          g = d k0 - d k + (e k / (f + CopySign r f))
      in case QLZ_sweep L n k0 k (k0 - 1) (g, 1, 1, Fin 0, d, e, work) of
           None \<Rightarrow> None
         | Some (g, c, s, p, d, e, work) \<Rightarrow>
             (let d = d(k := d k - p); e = e(k := g); nn = nat (k0 - k) + 1
              in case Mat_RotSeq Side_Right Pivot_Var Direct_Bwd n nn
                        (ptr_add work k) (ptr_add work (int n + k)) (blk_add Z 0 k) of
                   Inl sg \<Rightarrow> Some (Inl sg)
                 | Inr B \<Rightarrow> Some (Inr (d, e, blk_store B 0 k, work))))"

definition QRZ_step ::
  "limits \<Rightarrow> nat \<Rightarrow> int \<Rightarrow> int \<Rightarrow> vec \<Rightarrow> vec \<Rightarrow> mat \<Rightarrow> vec
     \<Rightarrow> (signal + vec \<times> vec \<times> mat \<times> vec) option" where
  "QRZ_step L n k0 k d e Z work =
     (let f = (d (k - 1) - d k) / (Fin 2 * e (k - 1));
          r = Hypot f 1;
          g = d k0 - d k + (e (k - 1) / (f + CopySign r f))
      in case QRZ_sweep L n k0 k k0 (g, 1, 1, Fin 0, d, e, work) of
           None \<Rightarrow> None
         | Some (g, c, s, p, d, e, work) \<Rightarrow>
             (let d = d(k := d k - p); e = e(k - 1 := g); nn = nat (k - k0) + 1
              in case Mat_RotSeq Side_Right Pivot_Var Direct_Fwd n nn
                        (ptr_add work k0) (ptr_add work (int n + k0)) (blk_add Z 0 k0) of
                   Inl sg \<Rightarrow> Some (Inl sg)
                 | Inr B \<Rightarrow> Some (Inr (d, e, blk_store B 0 k0, work))))"

text \<open>
  The 2-by-2 case: \<open>Aux_EigVec2\<close> writes the eigenvalues to \<open>d\<close> and the rotation to
  \<open>C[k]\<close>, \<open>S[k]\<close>; \<open>Mat_RotSeq\<close> applies it to the two columns of \<open>Z\<close> from \<open>j0\<close>.
\<close>

definition EigVec2_rot ::
  "nat \<Rightarrow> Direct \<Rightarrow> int \<Rightarrow> int \<Rightarrow> scalar \<Rightarrow> scalar \<Rightarrow> mat \<Rightarrow> vec \<Rightarrow> signal + mat \<times> vec" where
  "EigVec2_rot n direct k j0 cs1 sn1 Z work =
     (let work = work(k := cs1); work = work(int n + k := sn1)
      in case Mat_RotSeq Side_Right Pivot_Var direct n 2
                (ptr_add work k) (ptr_add work (int n + k)) (blk_add Z 0 j0) of
           Inl sg \<Rightarrow> Inl sg
         | Inr B \<Rightarrow> Inr (blk_store B 0 j0, work))"

function QLZ_loop ::
  "limits \<Rightarrow> nat \<Rightarrow> scalar \<Rightarrow> 64 word \<Rightarrow> int \<Rightarrow> 64 word \<Rightarrow> int \<Rightarrow> vec \<Rightarrow> vec \<Rightarrow> mat \<Rightarrow> vec
     \<Rightarrow> (64 word \<times> vec \<times> vec \<times> mat \<times> vec) outcome" where
  "QLZ_loop L n eps2 maxCount kend count k d e Z work =
     (if k \<le> kend then
        (case QL_split eps2 (minValue L) d e kend k of (k0, e) \<Rightarrow>
           if k0 = k then QLZ_loop L n eps2 maxCount kend count (k + 1) d e Z work
           else if k0 = k + 1 then
             (case Aux_EigVec2 (d k) (e k) (d (k + 1)) of (rt1, rt2, cs1, sn1) \<Rightarrow>
                (case EigVec2_rot n Direct_Bwd k k cs1 sn1 Z work of
                   Inl sg \<Rightarrow> Throw sg
                 | Inr (Z, work) \<Rightarrow>
                     QLZ_loop L n eps2 maxCount kend count (k + 2)
                       (d(k := rt1, k + 1 := rt2)) (e(k := Fin 0)) Z work))
           else if count = maxCount then Return False (count, d, e, Z, work)
           else (case QLZ_step L n k0 k d e Z work of
                   None \<Rightarrow> Diverge
                 | Some (Inl sg) \<Rightarrow> Throw sg
                 | Some (Inr (d, e, Z, work)) \<Rightarrow>
                     QLZ_loop L n eps2 maxCount kend (count + 1) k d e Z work))
      else Next (count, d, e, Z, work))"
  by pat_completeness auto
termination
  by (relation "measures
        [\<lambda>(L, n, eps2, maxCount, kend, count, k, d, e, Z, work). unat (maxCount - count),
         \<lambda>(L, n, eps2, maxCount, kend, count, k, d, e, Z, work). nat (kend + 1 - k)]")
     (auto simp: count_measure)

declare QLZ_loop.simps [simp del]

function QRZ_loop ::
  "limits \<Rightarrow> nat \<Rightarrow> scalar \<Rightarrow> 64 word \<Rightarrow> int \<Rightarrow> 64 word \<Rightarrow> int \<Rightarrow> vec \<Rightarrow> vec \<Rightarrow> mat \<Rightarrow> vec
     \<Rightarrow> (64 word \<times> vec \<times> vec \<times> mat \<times> vec) outcome" where
  "QRZ_loop L n eps2 maxCount kend count k d e Z work =
     (if k \<ge> kend then
        (case QR_split eps2 (minValue L) d e kend k of (k0, e) \<Rightarrow>
           if k0 = k then QRZ_loop L n eps2 maxCount kend count (k - 1) d e Z work
           else if k0 = k - 1 then
             (case Aux_EigVec2 (d (k - 1)) (e (k - 1)) (d k) of (rt1, rt2, cs1, sn1) \<Rightarrow>
                (case EigVec2_rot n Direct_Fwd k (k - 1) cs1 sn1 Z work of
                   Inl sg \<Rightarrow> Throw sg
                 | Inr (Z, work) \<Rightarrow>
                     QRZ_loop L n eps2 maxCount kend count (k - 2)
                       (d(k - 1 := rt1, k := rt2)) (e(k - 1 := Fin 0)) Z work))
           else if count = maxCount then Return False (count, d, e, Z, work)
           else (case QRZ_step L n k0 k d e Z work of
                   None \<Rightarrow> Diverge
                 | Some (Inl sg) \<Rightarrow> Throw sg
                 | Some (Inr (d, e, Z, work)) \<Rightarrow>
                     QRZ_loop L n eps2 maxCount kend (count + 1) k d e Z work))
      else Next (count, d, e, Z, work))"
  by pat_completeness auto
termination
  by (relation "measures
        [\<lambda>(L, n, eps2, maxCount, kend, count, k, d, e, Z, work). unat (maxCount - count),
         \<lambda>(L, n, eps2, maxCount, kend, count, k, d, e, Z, work). nat (k + 1 - kend)]")
     (auto simp: count_measure)

declare QRZ_loop.simps [simp del]

definition EigVecQR_block ::
  "limits \<Rightarrow> nat \<Rightarrow> scalar \<Rightarrow> scalar \<Rightarrow> scalar \<Rightarrow> 64 word \<Rightarrow> 64 word \<Rightarrow> int \<Rightarrow> int
     \<Rightarrow> vec \<Rightarrow> vec \<Rightarrow> mat \<Rightarrow> vec \<Rightarrow> (64 word \<times> vec \<times> vec \<times> mat \<times> vec) outcome" where
  "EigVecQR_block L n ssfmin ssfmax eps2 maxCount count k1 k0 d e Z work =
     (let k = k1; k1_prev = k1; kend = k0; kend_prev = kend
      in if kend = k then Next (count, d, e, Z, work)
         else
           let anorm = Syt_Norm NormType_Max (nat (kend - k + 1)) (ptr_add d k) (ptr_add e k)
           in if IsZero anorm then Next (count, d, e, Z, work)
              else
                let scale = Clamp anorm ssfmin ssfmax
                in rescl (Vec_Rescl L anorm scale (nat (kend - k + 1)) (ptr_add d k) 1) (\<lambda>dv.
                   rescl (Vec_Rescl L anorm scale (nat (kend - k)) (ptr_add e k) 1) (\<lambda>ev.
                     let d = ptr_store dv k; e = ptr_store ev k;
                         (kend, k) = (if \<bar>d kend\<bar> < \<bar>d k\<bar> then (k1_prev, kend_prev)
                                      else (kend, k))
                     in case (if kend \<ge> k
                              then QLZ_loop L n eps2 maxCount kend count k d e Z work
                              else QRZ_loop L n eps2 maxCount kend count k d e Z work) of
                          Next (count, d, e, Z, work) \<Rightarrow>
                            rescl (Vec_Rescl L scale anorm
                                     (nat ((kend_prev + 1) - (k1_prev + 1) + 1))
                                     (ptr_add d k1_prev) 1)
                              (\<lambda>dv. Next (count, ptr_store dv k1_prev, e, Z, work))
                        | Return b st \<Rightarrow> Return b st
                        | Throw sg \<Rightarrow> Throw sg
                        | Diverge \<Rightarrow> Diverge)))"

function EigVecQR_outer ::
  "limits \<Rightarrow> Config \<Rightarrow> nat \<Rightarrow> scalar \<Rightarrow> scalar \<Rightarrow> scalar \<Rightarrow> 64 word \<Rightarrow> 64 word \<Rightarrow> int
     \<Rightarrow> vec \<Rightarrow> vec \<Rightarrow> mat \<Rightarrow> vec \<Rightarrow> (64 word \<times> vec \<times> vec \<times> mat \<times> vec) outcome" where
  "EigVecQR_outer L cfg n ssfmin ssfmax eps2 maxCount count k1 d e Z work =
     (if count < maxCount then
        (if k1 > int n - 1 then Return True (count, d, e, Z, work)
         else
           (case split_scan (zeroTol cfg) n d (if k1 > 0 then e(k1 - 1 := Fin 0) else e) k1 of
              (k0, e) \<Rightarrow>
                (case EigVecQR_block L n ssfmin ssfmax eps2 maxCount count k1 k0 d e Z work of
                   Next (count, d, e, Z, work) \<Rightarrow>
                     EigVecQR_outer L cfg n ssfmin ssfmax eps2 maxCount count (k0 + 1) d e Z work
                 | Return b st \<Rightarrow> Return b st
                 | Throw sg \<Rightarrow> Throw sg
                 | Diverge \<Rightarrow> Diverge)))
      else Return True (count, d, e, Z, work))"
  by pat_completeness auto
termination
  by (relation "measure (\<lambda>(L, cfg, n, ssfmin, ssfmax, eps2, maxCount, count, k1, d, e, Z, work).
                   nat (int n - k1))")
     (auto dest: split_scan_fwd split_scan_fwd [OF sym])

declare EigVecQR_outer.simps [simp del]

definition Syt_EigVecQR_run ::
  "limits \<Rightarrow> Config \<Rightarrow> nat \<Rightarrow> vec \<Rightarrow> vec \<Rightarrow> mat \<Rightarrow> vec
     \<Rightarrow> (64 word \<times> vec \<times> vec \<times> mat \<times> vec) outcome" where
  "Syt_EigVecQR_run L cfg n d e Z work =
     (if 0 = n then Return True (0, d, e, Z, work)
      else
        let maxCount = of_nat n * maxIterationCount cfg;
            eps2 = Sqr (zeroTol cfg);
            safmin = minValue L;
            safmax = Inv safmin;
            ssfmin = Sqrt safmin / eps2;
            ssfmax = Sqrt safmax / Fin 3
        in EigVecQR_outer L cfg n ssfmin ssfmax eps2 maxCount 0 0 d e Z work)"

definition Syt_EigVecQR_Solve ::
  "limits \<Rightarrow> Config \<Rightarrow> nat \<Rightarrow> vec \<Rightarrow> vec \<Rightarrow> mat \<Rightarrow> vec \<Rightarrow> (vec \<times> vec \<times> mat \<times> vec) outcome" where
  "Syt_EigVecQR_Solve L cfg n d e Z work =
     map_outcome (\<lambda>(count, d, e, Z, work). (d, e, Z, work)) (Syt_EigVecQR_run L cfg n d e Z work)"

text \<open>What the two solvers have in common: the boolean, \<open>d\<close> and \<open>e\<close>.\<close>

definition values_of :: "(vec \<times> vec \<times> mat \<times> vec) outcome \<Rightarrow> (vec \<times> vec) outcome" where
  "values_of r = map_outcome (\<lambda>(d, e, Z, work). (d, e)) r"

definition counted_values ::
  "64 word \<times> vec \<times> vec \<times> mat \<times> vec \<Rightarrow> 64 word \<times> vec \<times> vec" where
  "counted_values st = (case st of (count, d, e, Z, work) \<Rightarrow> (count, d, e))"

text \<open>Limits with \<open>Sqrt(minValue)\<close> rational, for a run of the solvers by hand.\<close>

definition coarse_limits :: limits where
  "coarse_limits = \<lparr>minValue = Fin (1 / 10000), maxValue = Fin 10000, epsilon = Fin (1 / 10)\<rparr>"






section \<open>Verification\<close>

subsection \<open>Work size of \<open>Ort_From_Syt\<close>\<close>

text \<open>
  C7 (as stated): for every \<open>n \<ge> 1\<close> the work-size formula of \<open>Ort_From_Syt\<close> returns at
  least \<open>n\<close>. The formula returns \<open>n - 1\<close>; at \<open>n = 1\<close> it returns \<open>0\<close>.
\<close>

theorem Ort_From_Syt_WorkSize_counterexample:
  "Ort_From_Syt_WorkSize 1 = 0 \<and> \<not> (1 \<le> Ort_From_Syt_WorkSize 1)"
  by (simp add: Ort_From_Syt_WorkSize_def size_sub_def)

text \<open>
  C7 (amended): for every \<open>n \<ge> 1\<close> (below the range of \<open>Size\<close>) the formula returns
  \<open>n - 1\<close>, which is the work size of the routines \<open>Ort_From_QL\<close> and \<open>Ort_From_QR\<close>
  that \<open>Ort_From_Syt\<close> delegates to, called on order \<open>n - 1\<close>.
\<close>

theorem Ort_From_Syt_WorkSize_eq:
  assumes "1 \<le> n" and "n < 2 ^ 64"
  shows "Ort_From_Syt_WorkSize n = n - 1
       \<and> Ort_From_Syt_WorkSize n = Ort_From_QL_WorkSize (n - 1) (n - 1) (n - 1)
       \<and> Ort_From_Syt_WorkSize n = Ort_From_QR_WorkSize (n - 1) (n - 1) (n - 1)"
proof -
  obtain k where k: "n = Suc k"
    using assms(1) by (cases n) auto
  have "size_sub n 1 = (k + 2 ^ 64) mod 2 ^ 64"
    unfolding size_sub_def k by simp
  also have "\<dots> = k"
    using assms(2) k by simp
  finally show ?thesis
    by (simp add: Ort_From_Syt_WorkSize_def Ort_From_QL_WorkSize_def
        Ort_From_QR_WorkSize_def k)
qed

theorem Ort_From_Syt_WorkSize_eq_witness:
  "Ort_From_Syt_WorkSize 5 = 4 \<and> Ort_From_QL_WorkSize 4 4 4 = 4 \<and> Ort_From_QR_WorkSize 4 4 4 = 4"
  using Ort_From_Syt_WorkSize_eq [of 5]
  by (simp add: Ort_From_QL_WorkSize_def Ort_From_QR_WorkSize_def)



subsection \<open>Arithmetic on finite scalars\<close>

lemma Fin_arith [simp]:
  "Fin a + Fin b = Fin (a + b)"
  "Fin a - Fin b = Fin (a - b)"
  "Fin a * Fin b = Fin (a * b)"
  "- Fin a = Fin (- a)"
  "\<bar>Fin a\<bar> = Fin \<bar>a\<bar>"
  "(Fin a < Fin b) = (a < b)"
  "(Fin a \<le> Fin b) = (a \<le> b)"
  "(0::scalar) = Fin 0"
  "(1::scalar) = Fin 1"
  by (simp_all add: plus_scalar_def minus_scalar_def times_scalar_def uminus_scalar_def
      abs_scalar_def less_scalar_def less_eq_scalar_def zero_scalar_def one_scalar_def)

lemma IsZero_Fin [simp]: "IsZero (Fin a) = (a = 0)"
  by (auto simp: IsZero_def s_eq_def)

lemma IsUnit_Fin [simp]: "IsUnit (Fin a) = (a = 1)"
  by (auto simp: IsUnit_def s_eq_def)

lemma is_fin_iff: "is_fin x = (\<exists>r. x = Fin r)"
  by (cases x) auto

lemma IsZero_iff: "IsZero x = (x = Fin 0)"
  by (auto simp: IsZero_def s_eq_def)

subsection \<open>Closed forms of the BLAS loops\<close>





lemma Fin_val: "is_fin x \<Longrightarrow> x = Fin (val x)"
  by (cases x) auto







subsection \<open>The trimming scans\<close>








subsection \<open>\<open>Rfl_MatMul\<close> against the untrimmed update\<close>


lemma VecView_1 [simp]: "VecView x 1 = x"
  by (simp add: VecView_def VecRef_def fun_eq_iff)



text \<open>
  C3: \<open>Rfl_MatMul\<close> called with \<open>tau = 0\<close> modifies nothing: the matrix \<open>C\<close> and the work
  buffer are returned as they were, for every side, size, vector and stride.
\<close>

theorem Rfl_MatMul_tau_zero:
  "Rfl_MatMul side m n v V_cs (Fin 0) C work = (C, work)"
  by (simp add: Rfl_MatMul_def)

theorem Rfl_MatMul_tau_zero_witness:
  "Rfl_MatMul Side_Right 2 3 (\<lambda>i. NaN) 1 (Fin 0) (\<lambda>p. PInf) (\<lambda>i. Fin 7)
     = ((\<lambda>p. PInf), (\<lambda>i. Fin 7))"
  by (rule Rfl_MatMul_tau_zero)







subsection \<open>\<open>Half::Both\<close> in the triangular-only routines\<close>

text \<open>
  C9: the triangular-only routines treat \<open>Half::Both\<close> differently. \<open>Sym_Rank2Upd\<close> called
  with \<open>Half::Both\<close> throws \<open>BadArgument\<close> with argument index 1 for every input, and so does
  \<open>Tri_Solv_Vec\<close>; \<open>Sym_Norm\<close> called with \<open>Half::Both\<close> and \<open>n \<ge> 1\<close> throws nothing and
  returns the undefined value (and leaves the work buffer as it was).
\<close>

theorem Half_Both_inconsistent:
  "Sym_Rank2Upd Half_Both n alpha x y A = Inl (BadArgument ''Sym_Rank2Upd'' 1)
   \<and> Tri_Solv_Vec Half_Both A_trnsp diag n A A_ld x' x_s = Inl (BadArgument ''Tri_Solv_Vec'' 1)
   \<and> (1 \<le> n \<longrightarrow> Sym_Norm normType Half_Both n A work = (NaN, work))"
  by (simp add: Sym_Rank2Upd_def Tri_Solv_Vec_def Sym_Norm_def)

theorem Half_Both_inconsistent_witness:
  "Sym_Rank2Upd Half_Both 2 (Fin 1) (\<lambda>i. Fin 1) (\<lambda>i. Fin 2) (\<lambda>p. Fin 3)
     = Inl (BadArgument ''Sym_Rank2Upd'' 1)
   \<and> Tri_Solv_Vec Half_Both Trnsp_No Diag_NotUnit 2 (\<lambda>p. Fin 3) 2 (\<lambda>i. Fin 1) 1
     = Inl (BadArgument ''Tri_Solv_Vec'' 1)
   \<and> Sym_Norm NormType_Max Half_Both 2 (\<lambda>p. Fin 3) (\<lambda>i. Fin 0) = (NaN, (\<lambda>i. Fin 0))"
  using Half_Both_inconsistent [of 2 "Fin 1" "\<lambda>i. Fin 1" "\<lambda>i. Fin 2" "\<lambda>p. Fin 3"
      Trnsp_No Diag_NotUnit 2 "\<lambda>i. Fin 1" 1 NormType_Max "\<lambda>i. Fin 0"]
  by simp

subsection \<open>Element accesses of \<open>Mat_RotSeq\<close>\<close>

text \<open>
  C10: every element access of \<open>Mat_RotSeq\<close> stays inside its \<open>m\<close>-by-\<open>n\<close> block. The branch
  \<open>Side::Right\<close>, \<open>Pivot::Btm\<close>, \<open>Direct::Fwd\<close> reads \<open>A(i,n)\<close>: on a 1-by-2 block with the
  rotation \<open>c = 0\<close>, \<open>s = 1\<close> it reads element \<open>(0, 2)\<close>, one column past the block. The
  \<open>Direct::Bwd\<close> branch of the same side and pivot reads \<open>A(i,n-1)\<close> and completes.
\<close>

theorem Mat_RotSeq_Right_Btm_Fwd_out_of_block:
  "Mat_RotSeq Side_Right Pivot_Btm Direct_Fwd 1 2 (\<lambda>i. Fin 0) (\<lambda>i. Fin 1) (\<lambda>p. Fin 1)
     = Inl (OutOfBlock 0 2)
   \<and> (\<exists>A'. Mat_RotSeq Side_Right Pivot_Btm Direct_Bwd 1 2 (\<lambda>i. Fin 0) (\<lambda>i. Fin 1) (\<lambda>p. Fin 1)
          = Inr A')"
  by (simp add: Mat_RotSeq_def rot_if_def rot_Right_Btm_Fwd_def rot_Right_Btm_Bwd_def
      mat_get_def mat_set_def sig_bind_def)

subsection \<open>Safe rescaling: signals and termination\<close>

lemma s_div_Fin [simp]: "b \<noteq> 0 \<Longrightarrow> Fin a / Fin b = Fin (a / b)"
  by (simp add: divide_scalar_def)

lemma Inv_Fin [simp]: "b \<noteq> 0 \<Longrightarrow> Inv (Fin b) = Fin (1 / b)"
  by (simp add: Inv_def)

lemma s_eq_Fin [simp]: "s_eq (Fin a) (Fin b) = (a = b)"
  by (simp add: s_eq_def)

lemma Vec_Rescl_loop_step:
  assumes "0 < s" "s < 1" "a \<noteq> 0" "c \<noteq> 0"
  shows "Vec_Rescl_loop (Fin s) n x_s (Fin a) (Fin c) x =
     (if \<bar>c\<bar> < \<bar>a * s\<bar>
      then Vec_Rescl_loop (Fin s) n x_s (Fin (a * s)) (Fin c) (Vec_Scale n (Fin s) x x_s)
      else if \<bar>a\<bar> < \<bar>c * s\<bar>
      then Vec_Rescl_loop (Fin s) n x_s (Fin a) (Fin (c * s)) (Vec_Scale n (Fin (1 / s)) x x_s)
      else Some (Vec_Scale n (Fin (c / a)) x x_s))"
  using assms by (subst Vec_Rescl_loop.simps) (simp add: Let_def)

lemma Vec_Rescl_loop_fin:
  assumes s: "0 < s" "s < 1"
  shows "a \<noteq> 0 \<Longrightarrow> c \<noteq> 0 \<Longrightarrow> \<bar>c\<bar> * s ^ N \<le> \<bar>a\<bar> \<Longrightarrow> \<bar>a\<bar> * s ^ N \<le> \<bar>c\<bar>
     \<Longrightarrow> \<exists>x'. Vec_Rescl_loop (Fin s) n x_s (Fin a) (Fin c) x = Some x'"
proof (induction N arbitrary: a c x)
  case 0
  then have "\<bar>a\<bar> = \<bar>c\<bar>" by simp
  moreover have "\<bar>a\<bar> * s < \<bar>a\<bar>" using s 0(1) by simp
  ultimately have "\<not> \<bar>c\<bar> < \<bar>a * s\<bar>" "\<not> \<bar>a\<bar> < \<bar>c * s\<bar>"
    using s by (simp_all add: abs_mult)
  then show ?case
    using Vec_Rescl_loop_step [OF s 0(1,2)] by simp
next
  case (Suc N)
  have sN: "0 < s ^ N" "s ^ N \<le> 1"
    using s by (simp_all add: power_le_one)
  show ?case
  proof (cases "\<bar>c\<bar> < \<bar>a * s\<bar>")
    case True
    have "a * s \<noteq> 0" using s Suc(2) by simp
    moreover have "\<bar>c\<bar> * s ^ N \<le> \<bar>a * s\<bar>"
    proof -
      have "\<bar>c\<bar> * s ^ N \<le> \<bar>c\<bar> * 1"
        using sN by (intro mult_left_mono) simp_all
      then show ?thesis using True by simp
    qed
    moreover have "\<bar>a * s\<bar> * s ^ N \<le> \<bar>c\<bar>"
      using Suc(5) s by (simp add: abs_mult mult.assoc)
    ultimately have "\<exists>x'. Vec_Rescl_loop (Fin s) n x_s (Fin (a * s)) (Fin c)
        (Vec_Scale n (Fin s) x x_s) = Some x'"
      using Suc(1) Suc(3) by blast
    then show ?thesis
      using Vec_Rescl_loop_step [OF s Suc(2,3)] True by simp
  next
    case False
    show ?thesis
    proof (cases "\<bar>a\<bar> < \<bar>c * s\<bar>")
      case True
      have "c * s \<noteq> 0" using s Suc(3) by simp
      moreover have "\<bar>a\<bar> * s ^ N \<le> \<bar>c * s\<bar>"
      proof -
        have "\<bar>a\<bar> * s ^ N \<le> \<bar>a\<bar> * 1"
          using sN by (intro mult_left_mono) simp_all
        then show ?thesis using True by simp
      qed
      moreover have "\<bar>c * s\<bar> * s ^ N \<le> \<bar>a\<bar>"
        using Suc(4) s by (simp add: abs_mult mult.assoc)
      ultimately have "\<exists>x'. Vec_Rescl_loop (Fin s) n x_s (Fin a) (Fin (c * s))
          (Vec_Scale n (Fin (1 / s)) x x_s) = Some x'"
        using Suc(1) Suc(2) by blast
      then show ?thesis
        using Vec_Rescl_loop_step [OF s Suc(2,3)] True False by simp
    next
      case F2: False
      show ?thesis
        using Vec_Rescl_loop_step [OF s Suc(2,3)] False F2 by simp
    qed
  qed
qed

lemma pow_bound:
  fixes s y :: real
  assumes "0 < s" "s < 1" "0 < y"
  shows "\<exists>N. \<forall>M\<ge>N. s ^ M \<le> y"
proof -
  obtain N where N: "s ^ N < y"
    using real_arch_pow_inv [OF assms(3) assms(2)] by blast
  have "s ^ M \<le> y" if "N \<le> M" for M
  proof -
    have "s ^ M \<le> s ^ N"
      using assms that by (intro power_decreasing) simp_all
    then show ?thesis using N by simp
  qed
  then show ?thesis by blast
qed

lemma Vec_Rescl_loop_terminates:
  assumes s: "0 < s" "s < 1" and cf: "cfrom \<noteq> Fin 0" "cfrom \<noteq> NaN" and ct: "cto \<noteq> NaN"
  shows "\<exists>x'. Vec_Rescl_loop (Fin s) n x_s cfrom cto x = Some x'"
proof (cases cfrom)
  case (Fin a)
  then have a: "a \<noteq> 0" using cf by simp
  show ?thesis
  proof (cases cto)
    case (Fin c)
    show ?thesis
    proof (cases "c = 0")
      case True
      then show ?thesis
        using s a \<open>cfrom = Fin a\<close> \<open>cto = Fin c\<close>
        by (subst Vec_Rescl_loop.simps) (simp add: Let_def)
    next
      case False
      obtain N1 where N1: "\<forall>M\<ge>N1. s ^ M \<le> \<bar>a\<bar> / \<bar>c\<bar>"
        using pow_bound [OF s, of "\<bar>a\<bar> / \<bar>c\<bar>"] a False by auto
      obtain N2 where N2: "\<forall>M\<ge>N2. s ^ M \<le> \<bar>c\<bar> / \<bar>a\<bar>"
        using pow_bound [OF s, of "\<bar>c\<bar> / \<bar>a\<bar>"] a False by auto
      define N where "N = max N1 N2"
      have "s ^ N \<le> \<bar>a\<bar> / \<bar>c\<bar>" "s ^ N \<le> \<bar>c\<bar> / \<bar>a\<bar>"
        using N1 N2 by (simp_all add: N_def)
      then have "\<bar>c\<bar> * s ^ N \<le> \<bar>a\<bar>" "\<bar>a\<bar> * s ^ N \<le> \<bar>c\<bar>"
        using a False by (simp_all add: field_simps)
      from Vec_Rescl_loop_fin [OF s a False this]
      show ?thesis using \<open>cfrom = Fin a\<close> \<open>cto = Fin c\<close> by simp
    qed
  next
    case PInf
    then show ?thesis
      using s a \<open>cfrom = Fin a\<close>
      by (subst Vec_Rescl_loop.simps) (simp add: Let_def divide_scalar_def inf_of_def s_eq_def)
  next
    case NInf
    then show ?thesis
      using s a \<open>cfrom = Fin a\<close>
      by (subst Vec_Rescl_loop.simps) (simp add: Let_def divide_scalar_def inf_of_def s_eq_def)
  next
    case NaN
    then show ?thesis using ct by simp
  qed
next
  case PInf
  then show ?thesis
    using s by (subst Vec_Rescl_loop.simps) (simp add: Let_def times_scalar_def inf_of_def s_eq_def)
next
  case NInf
  then show ?thesis
    using s by (subst Vec_Rescl_loop.simps) (simp add: Let_def times_scalar_def inf_of_def s_eq_def)
next
  case NaN
  then show ?thesis using cf by simp
qed

text \<open>
  C8: \<open>Vec_Rescl\<close> raises the bad-argument error exactly when a precondition is violated.
  For the limits of a floating-point type (\<open>0 < minValue < 1\<close>): it throws \<open>BadArgument\<close>
  with argument index 1 when \<open>cfrom\<close> is zero or not-a-number, with argument index 2 when
  \<open>cfrom\<close> is valid and \<open>cto\<close> is not-a-number, and in every other case its loop ends and it
  returns without raising. The three cases are disjoint and cover every input, so each
  outcome occurs in exactly its case.
\<close>

theorem Vec_Rescl_signals:
  assumes "minValue L = Fin s" and "0 < s" and "s < 1"
  shows "(cfrom = Fin 0 \<or> cfrom = NaN
            \<longrightarrow> Vec_Rescl L cfrom cto n x x_s = Some (Inl (BadArgument ''Vec_Rescl'' 1)))
       \<and> (cfrom \<noteq> Fin 0 \<and> cfrom \<noteq> NaN \<and> cto = NaN
            \<longrightarrow> Vec_Rescl L cfrom cto n x x_s = Some (Inl (BadArgument ''Vec_Rescl'' 2)))
       \<and> (cfrom \<noteq> Fin 0 \<and> cfrom \<noteq> NaN \<and> cto \<noteq> NaN
            \<longrightarrow> (\<exists>x'. Vec_Rescl L cfrom cto n x x_s = Some (Inr x')))"
proof (intro conjI impI)
  assume "cfrom = Fin 0 \<or> cfrom = NaN"
  then show "Vec_Rescl L cfrom cto n x x_s = Some (Inl (BadArgument ''Vec_Rescl'' 1))"
    by (auto simp: Vec_Rescl_def IsUndefined_def)
next
  assume "cfrom \<noteq> Fin 0 \<and> cfrom \<noteq> NaN \<and> cto = NaN"
  then show "Vec_Rescl L cfrom cto n x x_s = Some (Inl (BadArgument ''Vec_Rescl'' 2))"
    by (auto simp: Vec_Rescl_def IsUndefined_def IsZero_iff)
next
  assume a: "cfrom \<noteq> Fin 0 \<and> cfrom \<noteq> NaN \<and> cto \<noteq> NaN"
  then obtain x' where "Vec_Rescl_loop (Fin s) n (int x_s) cfrom cto x = Some x'"
    using Vec_Rescl_loop_terminates [OF assms(2,3), of cfrom cto n "int x_s" x] by blast
  then show "\<exists>x'. Vec_Rescl L cfrom cto n x x_s = Some (Inr x')"
    using a assms(1) by (auto simp: Vec_Rescl_def IsUndefined_def IsZero_iff)
qed

theorem Vec_Rescl_signals_witness:
  "Vec_Rescl \<lparr>minValue = Fin (1 / 2), maxValue = Fin 2, epsilon = Fin (1 / 2)\<rparr>
      (Fin 0) (Fin 1) 1 (\<lambda>i. Fin 8) 1 = Some (Inl (BadArgument ''Vec_Rescl'' 1))
   \<and> Vec_Rescl \<lparr>minValue = Fin (1 / 2), maxValue = Fin 2, epsilon = Fin (1 / 2)\<rparr>
      (Fin 8) NaN 1 (\<lambda>i. Fin 8) 1 = Some (Inl (BadArgument ''Vec_Rescl'' 2))
   \<and> (\<exists>x'. Vec_Rescl \<lparr>minValue = Fin (1 / 2), maxValue = Fin 2, epsilon = Fin (1 / 2)\<rparr>
      (Fin 8) (Fin 1) 1 (\<lambda>i. Fin 8) 1 = Some (Inr x'))"
  using Vec_Rescl_signals [of "\<lparr>minValue = Fin (1 / 2), maxValue = Fin 2, epsilon = Fin (1 / 2)\<rparr>"
      "1 / 2" "Fin 0" "Fin 1" 1 "\<lambda>i. Fin 8" 1]
    Vec_Rescl_signals [of "\<lparr>minValue = Fin (1 / 2), maxValue = Fin 2, epsilon = Fin (1 / 2)\<rparr>"
      "1 / 2" "Fin 8" NaN 1 "\<lambda>i. Fin 8" 1]
    Vec_Rescl_signals [of "\<lparr>minValue = Fin (1 / 2), maxValue = Fin 2, epsilon = Fin (1 / 2)\<rparr>"
      "1 / 2" "Fin 8" "Fin 1" 1 "\<lambda>i. Fin 8" 1]
  by simp

subsection \<open>Reflector generation: the range of \<open>tau\<close>\<close>

lemma fold_scale_elem:
  assumes "is_fin (x p)"
  shows "\<exists>c. fold (\<lambda>i x. x(int i * s := x (int i * s) * Fin r)) [0..<k] x p = Fin (val (x p) * r ^ c)"
proof (induction k)
  case 0
  show ?case
    using assms by (intro exI [of _ 0]) (simp add: Fin_val [symmetric])
next
  case (Suc k)
  then obtain c where c: "fold (\<lambda>i x. x(int i * s := x (int i * s) * Fin r)) [0..<k] x p
      = Fin (val (x p) * r ^ c)" by blast
  show ?case
  proof (cases "p = int k * s")
    case True
    have "fold (\<lambda>i x. x(int i * s := x (int i * s) * Fin r)) [0..<Suc k] x p
        = Fin (val (x p) * r ^ Suc c)"
      using c True by (simp add: mult.assoc mult.commute)
    then show ?thesis by blast
  next
    case False
    then have "fold (\<lambda>i x. x(int i * s := x (int i * s) * Fin r)) [0..<Suc k] x p
        = Fin (val (x p) * r ^ c)"
      using c by simp
    then show ?thesis by blast
  qed
qed

lemma Vec_Scale_elem:
  assumes "is_fin (x p)" "r \<noteq> 0"
  shows "\<exists>c. Vec_Scale k (Fin r) x s p = Fin (val (x p) * r ^ c)"
proof (cases "r = 1")
  case True
  have "Vec_Scale k (Fin r) x s p = x p"
    using True by (simp add: Vec_Scale_def)
  then show ?thesis
    using assms by (intro exI [of _ 0]) (simp add: Fin_val [symmetric])
next
  case False
  then show ?thesis
    using fold_scale_elem [of x p s r k] assms by (simp add: Vec_Scale_def)
qed

lemma Vec_Scale_fin:
  assumes "is_fin (x p)" "r \<noteq> 0"
  shows "is_fin (Vec_Scale k (Fin r) x s p)"
  using Vec_Scale_elem [of x p r k s] assms by auto

lemma Vec_Scale_nonzero:
  assumes "is_fin (x p)" "r \<noteq> 0" "x p \<noteq> Fin 0"
  shows "Vec_Scale k (Fin r) x s p \<noteq> Fin 0"
proof -
  obtain c where c: "Vec_Scale k (Fin r) x s p = Fin (val (x p) * r ^ c)"
    using Vec_Scale_elem [of x p r k s] assms(1,2) by blast
  have "val (x p) \<noteq> 0" using assms(1,3) by (cases "x p") auto
  then show ?thesis using c assms(2) by simp
qed

lemma Sqr_div_Fin: "v \<noteq> 0 \<Longrightarrow> Sqr (Fin u / Fin v) = Fin ((u / v) * (u / v))"
  by (simp add: Sqr_def)

lemma Sqrt_Fin: "0 \<le> q \<Longrightarrow> Sqrt (Fin q) = Fin (sqrt q)"
  by simp

lemma norm2_fold_inv:
  assumes fin: "\<forall>i<n. is_fin (x (int i))" and k: "k \<le> n"
  shows "norm2_inv x k (fold (Vec_Norm2_step x) [0..<k] (Fin 0, Fin 1, Fin 0))"
  using k
proof (induction k)
  case 0
  show ?case by (simp add: norm2_inv_def)
next
  case (Suc k)
  let ?f = "Vec_Norm2_step x"
  from Suc obtain sc q where st: "fold ?f [0..<k] (Fin 0, Fin 1, Fin 0) = (Fin sc, Fin q, Fin (sc * sqrt q))"
    and sc: "0 \<le> sc" and q: "1 \<le> q" and z: "sc = 0 \<longleftrightarrow> (\<forall>i<k. x (int i) = Fin 0)"
    unfolding norm2_inv_def by auto
  have "is_fin (x (int k))"
    using fin Suc(2) by simp
  then obtain a where a: "x (int k) = Fin a"
    by (auto simp: is_fin_iff)
  have step: "fold ?f [0..<Suc k] (Fin 0, Fin 1, Fin 0) = ?f k (Fin sc, Fin q, Fin (sc * sqrt q))"
    by (simp only: upt_Suc_append [OF le0] fold_append fold.simps o_apply st id_apply)
  have all: "(\<forall>i<Suc k. x (int i) = Fin 0) \<longleftrightarrow> (\<forall>i<k. x (int i) = Fin 0) \<and> a = 0"
    using a by (auto simp: less_Suc_eq)
  show ?case
  proof (cases "a = 0")
    case True
    have one: "Vec_Norm2_step x k (Fin sc, Fin q, Fin (sc * sqrt q)) = (Fin sc, Fin q, Fin (sc * sqrt q))"
      using a True q by (simp add: Vec_Norm2_step_def Let_def)
    show ?thesis
      unfolding step unfolding one norm2_inv_def
      using sc q z all True by simp
  next
    case False
    show ?thesis
    proof (cases "\<bar>a\<bar> \<le> sc")
      case True
      then have scpos: "0 < sc" using False by simp
      define q' where "q' = q + (\<bar>a\<bar> / sc) * (\<bar>a\<bar> / sc)"
      have "0 \<le> (\<bar>a\<bar> / sc) * (\<bar>a\<bar> / sc)" by simp
      then have q': "1 \<le> q'" using q unfolding q'_def by linarith
      have one: "Vec_Norm2_step x k (Fin sc, Fin q, Fin (sc * sqrt q)) = (Fin sc, Fin q', Fin (sc * sqrt q'))"
      proof -
        have "0 \<le> a * a / (sc * sc)" by simp
        then have nn: "\<not> q + a * a / (sc * sc) < 0" using q by linarith
        show ?thesis
          using a False True scpos nn
          by (simp add: Vec_Norm2_step_def Let_def Sqr_def q'_def)
      qed
      show ?thesis
        unfolding step unfolding one norm2_inv_def
        using sc q' z all False scpos by auto
    next
      case F: False
      define q' where "q' = 1 + q * ((sc / \<bar>a\<bar>) * (sc / \<bar>a\<bar>))"
      have "0 \<le> q * ((sc / \<bar>a\<bar>) * (sc / \<bar>a\<bar>))" using q by simp
      then have q': "1 \<le> q'" unfolding q'_def by linarith
      have one: "Vec_Norm2_step x k (Fin sc, Fin q, Fin (sc * sqrt q)) = (Fin \<bar>a\<bar>, Fin q', Fin (\<bar>a\<bar> * sqrt q'))"
      proof -
        have "0 \<le> q * (sc * sc) / (a * a)" using q by simp
        then have nn: "\<not> 1 + q * (sc * sc) / (a * a) < 0" by linarith
        show ?thesis
          using a False F nn
          by (simp add: Vec_Norm2_step_def Let_def Sqr_def q'_def)
      qed
      show ?thesis
        unfolding step unfolding one norm2_inv_def
        using sc q' z all False by auto
    qed
  qed
qed

lemma Vec_Norm2_spec:
  assumes fin: "\<forall>i<n. is_fin (x (int i))"
  shows "\<exists>r. Vec_Norm2 n x = Fin r \<and> 0 \<le> r \<and> (r = 0 \<longleftrightarrow> (\<forall>i<n. x (int i) = Fin 0))"
proof (cases "n = 0 \<or> n = 1")
  case True
  then show ?thesis
  proof
    assume "n = 0" then show ?thesis by (simp add: Vec_Norm2_def)
  next
    assume n: "n = 1"
    then have "is_fin (x (int 0))" using fin by simp
    then obtain a where "x 0 = Fin a" by (auto simp: is_fin_iff)
    then show ?thesis using n by (simp add: Vec_Norm2_def)
  qed
next
  case False
  from norm2_fold_inv [OF fin order_refl]
  obtain sc q where st: "fold (Vec_Norm2_step x) [0..<n] (Fin 0, Fin 1, Fin 0) = (Fin sc, Fin q, Fin (sc * sqrt q))"
    and sc: "0 \<le> sc" and q: "1 \<le> q" and z: "sc = 0 \<longleftrightarrow> (\<forall>i<n. x (int i) = Fin 0)"
    unfolding norm2_inv_def by auto
  have "Vec_Norm2 n x = Fin (sc * sqrt q)"
    using False by (simp add: Vec_Norm2_def st)
  moreover have "0 \<le> sc * sqrt q" using sc q by simp
  moreover have "sc * sqrt q = 0 \<longleftrightarrow> sc = 0" using q by simp
  ultimately show ?thesis using z by auto
qed

lemma Vec_Scale_finS:
  assumes "finS N x_s x" "r \<noteq> 0"
  shows "finS N x_s (Vec_Scale k (Fin r) x x_s)"
  using assms Vec_Scale_fin unfolding finS_def by blast

lemma Vec_Scale_nzS:
  assumes "finS N x_s x" "nzS N x_s x" "r \<noteq> 0"
  shows "nzS N x_s (Vec_Scale k (Fin r) x x_s)"
  using assms Vec_Scale_nonzero unfolding finS_def nzS_def by blast

lemma rescale_inv:
  assumes s: "0 < s"
  shows "finS N x_s x \<Longrightarrow> nzS N x_s x \<Longrightarrow>
     finS N x_s (fst (snd (Rfl_VecGen_rescale (Fin s) (Fin (1 / s)) n x_s knt x (Fin b) (Fin a))))
     \<and> nzS N x_s (fst (snd (Rfl_VecGen_rescale (Fin s) (Fin (1 / s)) n x_s knt x (Fin b) (Fin a))))
     \<and> is_fin (snd (snd (snd (Rfl_VecGen_rescale (Fin s) (Fin (1 / s)) n x_s knt x (Fin b) (Fin a)))))"
proof (induction "nat (20 - knt)" arbitrary: knt x b a rule: less_induct)
  case less
  let ?x1 = "Vec_Scale (n - 1) (Fin (1 / s)) x x_s"
  have rs: "1 / s \<noteq> 0" using s by simp
  have x1: "finS N x_s ?x1" "nzS N x_s ?x1"
    using Vec_Scale_finS [OF less(2) rs] Vec_Scale_nzS [OF less(2,3) rs] by simp_all
  show ?case
  proof (cases "\<bar>Fin (b * (1 / s))\<bar> < Fin s \<and> knt + 1 < 20")
    case True
    have eq: "Rfl_VecGen_rescale (Fin s) (Fin (1 / s)) n x_s knt x (Fin b) (Fin a)
        = Rfl_VecGen_rescale (Fin s) (Fin (1 / s)) n x_s (knt + 1) ?x1 (Fin (b * (1 / s))) (Fin (a * (1 / s)))"
      using True by (subst Rfl_VecGen_rescale.simps) (simp add: Let_def)
    have "nat (20 - (knt + 1)) < nat (20 - knt)" using True by simp
    from less(1) [OF this x1] show ?thesis unfolding eq .
  next
    case False
    have eq: "Rfl_VecGen_rescale (Fin s) (Fin (1 / s)) n x_s knt x (Fin b) (Fin a)
        = (knt + 1, ?x1, Fin (b * (1 / s)), Fin (a * (1 / s)))"
      using False by (subst Rfl_VecGen_rescale.simps) (auto simp add: Let_def)
    show ?thesis unfolding eq using x1 by simp
  qed
qed

lemma tau_range:
  assumes "xn \<noteq> 0"
  shows "\<exists>b t. - CopySign (Hypot (Fin a) (Fin xn)) (Fin a) = Fin b \<and> b \<noteq> 0
     \<and> (Fin b - Fin a) / Fin b = Fin t \<and> 1 \<le> t \<and> t \<le> 2"
proof -
  define h where "h = sqrt (a * a + xn * xn)"
  have "0 < xn * xn"
    using assms by (cases "0 < xn") (auto simp: zero_less_mult_iff)
  then have "a * a < a * a + xn * xn" by simp
  then have "sqrt (a * a) < h" unfolding h_def by (rule real_sqrt_less_mono)
  then have ah: "\<bar>a\<bar> < h" by simp
  then have h: "0 < h" by linarith
  define b where "b = (if a < 0 then h else - h)"
  have beta: "- CopySign (Hypot (Fin a) (Fin xn)) (Fin a) = Fin b"
    using h by (simp add: CopySign_def b_def h_def [symmetric])
  have b0: "b \<noteq> 0" using h by (simp add: b_def)
  have t1: "1 \<le> (b - a) / b"
  proof (cases "a < 0")
    case True
    then have "0 < b" using h by (simp add: b_def)
    then show ?thesis using True by (simp add: pos_le_divide_eq)
  next
    case False
    then have "b < 0" using h by (simp add: b_def)
    then show ?thesis using False by (simp add: neg_le_divide_eq)
  qed
  have t2: "(b - a) / b \<le> 2"
  proof (cases "a < 0")
    case True
    then have "0 < b" "b = h" using h by (simp_all add: b_def)
    then show ?thesis using True ah by (simp add: pos_divide_le_eq)
  next
    case False
    then have bn: "b < 0" and bh: "b = - h" using h by (simp_all add: b_def)
    have "(b - a) / b \<le> 2 \<longleftrightarrow> 2 * b \<le> b - a"
      using bn by (rule neg_divide_le_eq)
    moreover have "2 * b \<le> b - a" using bh ah by linarith
    ultimately show ?thesis by blast
  qed
  show ?thesis
    using beta b0 t1 t2 by (intro exI [of _ b] exI [of _ "(b - a) / b"]) simp
qed

lemma norm_view:
  assumes "finS N x_s x"
  shows "\<exists>r. Vec_Norm2 N (VecView x x_s) = Fin r \<and> (r = 0 \<longleftrightarrow> \<not> nzS N x_s x)"
proof -
  have "\<forall>i<N. is_fin (VecView x x_s (int i))"
    using assms by (simp add: finS_def VecView_def VecRef_def)
  from Vec_Norm2_spec [OF this] show ?thesis
    by (auto simp: nzS_def VecView_def VecRef_def)
qed

lemma tau_value:
  assumes "xn \<noteq> 0"
  shows "\<exists>b. - CopySign (Hypot (Fin a) (Fin xn)) (Fin a) = Fin b \<and> b \<noteq> 0
     \<and> (Fin b - Fin a) / Fin b = Fin ((b - a) / b) \<and> 1 \<le> (b - a) / b \<and> (b - a) / b \<le> 2"
proof -
  obtain b t where bt: "- CopySign (Hypot (Fin a) (Fin xn)) (Fin a) = Fin b" "b \<noteq> 0"
    "(Fin b - Fin a) / Fin b = Fin t" "1 \<le> t" "t \<le> 2"
    using tau_range [OF assms, of a] by blast
  have "t = (b - a) / b"
    using bt(2,3) by simp
  then show ?thesis
    using bt by blast
qed

lemma rescale_alpha:
  assumes s: "0 < s"
  shows "\<exists>k. fst (Rfl_VecGen_rescale (Fin s) (Fin (1 / s)) n x_s knt x (Fin b) (Fin a))
               = knt + int k
     \<and> snd (snd (snd (Rfl_VecGen_rescale (Fin s) (Fin (1 / s)) n x_s knt x (Fin b) (Fin a))))
         = Fin (a * (1 / s) ^ k)"
proof (induction "nat (20 - knt)" arbitrary: knt x b a rule: less_induct)
  case less
  let ?x1 = "Vec_Scale (n - 1) (Fin (1 / s)) x x_s"
  show ?case
  proof (cases "\<bar>Fin (b * (1 / s))\<bar> < Fin s \<and> knt + 1 < 20")
    case True
    have eq: "Rfl_VecGen_rescale (Fin s) (Fin (1 / s)) n x_s knt x (Fin b) (Fin a)
        = Rfl_VecGen_rescale (Fin s) (Fin (1 / s)) n x_s (knt + 1) ?x1 (Fin (b * (1 / s))) (Fin (a * (1 / s)))"
      using True by (subst Rfl_VecGen_rescale.simps) (simp add: Let_def)
    have "nat (20 - (knt + 1)) < nat (20 - knt)" using True by simp
    from less(1) [OF this, of ?x1 "b * (1 / s)" "a * (1 / s)"]
    obtain k where k: "fst (Rfl_VecGen_rescale (Fin s) (Fin (1 / s)) n x_s (knt + 1) ?x1
          (Fin (b * (1 / s))) (Fin (a * (1 / s)))) = knt + 1 + int k"
      "snd (snd (snd (Rfl_VecGen_rescale (Fin s) (Fin (1 / s)) n x_s (knt + 1) ?x1
          (Fin (b * (1 / s))) (Fin (a * (1 / s)))))) = Fin (a * (1 / s) * (1 / s) ^ k)"
      by blast
    show ?thesis
      unfolding eq using k by (intro exI [of _ "Suc k"]) simp
  next
    case False
    have eq: "Rfl_VecGen_rescale (Fin s) (Fin (1 / s)) n x_s knt x (Fin b) (Fin a)
        = (knt + 1, ?x1, Fin (b * (1 / s)), Fin (a * (1 / s)))"
      using False by (subst Rfl_VecGen_rescale.simps) (auto simp add: Let_def)
    show ?thesis
      unfolding eq by (intro exI [of _ 1]) simp
  qed
qed

lemma fold_unscale: "fold (\<lambda>j beta. beta * Fin s) [0..<k] (Fin b) = Fin (b * s ^ k)"
  by (induction k) simp_all

text \<open>
  C2: the scalar \<open>tau\<close> produced by \<open>Rfl_VecGen\<close> lies in \<open>[0, 2]\<close>. In exact arithmetic, for
  a real \<open>alpha\<close> and a real vector \<open>x\<close>: \<open>n = 0\<close> leaves \<open>tau\<close> untouched, \<open>n = 1\<close> gives
  \<open>tau = 0\<close>, a vector \<open>x\<close> whose components are all zero gives \<open>tau = 0\<close>, and for every other
  input (the non-trivial case) the routine returns a non-zero \<open>beta\<close> in \<open>alpha\<close> and
  \<open>tau = (beta - alpha)/beta\<close>, with \<open>alpha\<close> the value given, which lies in \<open>[1, 2]\<close>; so
  \<open>tau = 0\<close> occurs exactly in the identity cases.
\<close>

theorem Rfl_VecGen_tau:
  assumes L: "minValue L = Fin s" and s: "0 < s" and al: "alpha = Fin a"
    and fin: "\<forall>i<n - 1. is_fin (VecRef x (int i) x_s)"
  shows "(n = 0 \<longrightarrow> snd (snd (Rfl_VecGen L n alpha x x_s tau)) = tau)
       \<and> (n = 1 \<longrightarrow> snd (snd (Rfl_VecGen L n alpha x x_s tau)) = Fin 0)
       \<and> (2 \<le> n \<and> (\<forall>i<n - 1. VecRef x (int i) x_s = Fin 0)
            \<longrightarrow> snd (snd (Rfl_VecGen L n alpha x x_s tau)) = Fin 0)
       \<and> (2 \<le> n \<and> \<not> (\<forall>i<n - 1. VecRef x (int i) x_s = Fin 0)
            \<longrightarrow> (\<exists>b t. fst (Rfl_VecGen L n alpha x x_s tau) = Fin b \<and> b \<noteq> 0
                   \<and> snd (snd (Rfl_VecGen L n alpha x x_s tau)) = Fin t
                   \<and> t = (b - a) / b \<and> 1 \<le> t \<and> t \<le> 2))"
proof (intro conjI impI)
  assume "n = 0"
  then show "snd (snd (Rfl_VecGen L n alpha x x_s tau)) = tau"
    by (simp add: Rfl_VecGen_def)
next
  assume "n = 1"
  then show "snd (snd (Rfl_VecGen L n alpha x x_s tau)) = Fin 0"
    by (simp add: Rfl_VecGen_def)
next
  have fS: "finS (n - 1) x_s x"
    using fin by (simp add: finS_def VecRef_def)
  obtain r where r: "Vec_Norm2 (n - 1) (VecView x x_s) = Fin r"
    and r0: "r = 0 \<longleftrightarrow> \<not> nzS (n - 1) x_s x"
    using norm_view [OF fS] by blast
  {
    assume a: "2 \<le> n \<and> (\<forall>i<n - 1. VecRef x (int i) x_s = Fin 0)"
    then have "r = 0" using r0 by (auto simp: nzS_def VecRef_def)
    then show "snd (snd (Rfl_VecGen L n alpha x x_s tau)) = Fin 0"
      using a r by (simp add: Rfl_VecGen_def Let_def)
  }
  {
    assume a: "2 \<le> n \<and> \<not> (\<forall>i<n - 1. VecRef x (int i) x_s = Fin 0)"
    then have nz: "nzS (n - 1) x_s x" by (auto simp: nzS_def VecRef_def)
    then have rn: "r \<noteq> 0" using r0 by simp
    define beta0 where "beta0 = - CopySign (Hypot (Fin a) (Fin r)) (Fin a)"
    obtain b0 where b0: "beta0 = Fin b0" "b0 \<noteq> 0"
      "(Fin b0 - Fin a) / Fin b0 = Fin ((b0 - a) / b0)" "1 \<le> (b0 - a) / b0" "(b0 - a) / b0 \<le> 2"
      using tau_value [OF rn, of a] unfolding beta0_def by blast
    show "\<exists>b t. fst (Rfl_VecGen L n alpha x x_s tau) = Fin b \<and> b \<noteq> 0
        \<and> snd (snd (Rfl_VecGen L n alpha x x_s tau)) = Fin t
        \<and> t = (b - a) / b \<and> 1 \<le> t \<and> t \<le> 2"
    proof (cases "\<bar>beta0\<bar> < Fin s")
      case False
      have t: "snd (snd (Rfl_VecGen L n alpha x x_s tau)) = (beta0 - Fin a) / beta0"
        using a r rn False L al
        by (simp add: Rfl_VecGen_def Let_def beta0_def [symmetric] del: Hypot.simps)
      have b: "fst (Rfl_VecGen L n alpha x x_s tau) = beta0"
        using a r rn False L al
        by (simp add: Rfl_VecGen_def Let_def beta0_def [symmetric] del: Hypot.simps)
      show ?thesis
        unfolding t b using b0 by (intro exI [of _ b0] exI [of _ "(b0 - a) / b0"]) simp
    next
      case True
      define R where "R = Rfl_VecGen_rescale (Fin s) (Fin (1 / s)) n x_s 0 x (Fin b0) (Fin a)"
      have inv: "finS (n - 1) x_s (fst (snd R))" "nzS (n - 1) x_s (fst (snd R))"
        using rescale_inv [OF s fS nz, of n 0 b0 a] by (simp_all add: R_def)
      obtain k where k: "fst R = int k" and a1: "snd (snd (snd R)) = Fin (a * (1 / s) ^ k)"
        using rescale_alpha [OF s, of n x_s 0 x b0 a] by (auto simp: R_def)
      define a1 where "a1 = a * (1 / s) ^ k"
      obtain r1 where r1: "Vec_Norm2 (n - 1) (VecView (fst (snd R)) x_s) = Fin r1" and r1n: "r1 \<noteq> 0"
        using norm_view [OF inv(1)] inv(2) by auto
      define beta1 where "beta1 = - CopySign (Hypot (Fin a1) (Fin r1)) (Fin a1)"
      obtain b1 where b1: "beta1 = Fin b1" "b1 \<noteq> 0"
        "(Fin b1 - Fin a1) / Fin b1 = Fin ((b1 - a1) / b1)" "1 \<le> (b1 - a1) / b1"
        "(b1 - a1) / b1 \<le> 2"
        using tau_value [OF r1n, of a1] unfolding beta1_def by blast
      have t: "snd (snd (Rfl_VecGen L n alpha x x_s tau)) = (beta1 - Fin a1) / beta1"
        using a r rn True L al s b0(1) r1
        by (simp add: Rfl_VecGen_def Let_def split_beta beta0_def [symmetric]
            R_def [symmetric] a1 a1_def [symmetric] beta1_def [symmetric] del: Hypot.simps)
      have b: "fst (Rfl_VecGen L n alpha x x_s tau)
          = fold (\<lambda>j beta. beta * Fin s) [0..<k] beta1"
        using a r rn True L al s b0(1) r1
        by (simp add: Rfl_VecGen_def Let_def split_beta beta0_def [symmetric]
            R_def [symmetric] a1 a1_def [symmetric] beta1_def [symmetric] k del: Hypot.simps)
      have sk: "s ^ k \<noteq> 0" using s by simp
      have eq: "(b1 - a1) / b1 = (b1 * s ^ k - a) / (b1 * s ^ k)"
        using sk b1(2) by (simp add: a1_def field_simps power_one_over)
      have "b1 * s ^ k \<noteq> 0" using sk b1(2) by simp
      then show ?thesis
        unfolding t b b1(1) fold_unscale
        using b1 eq
        by (intro exI [of _ "b1 * s ^ k"] exI [of _ "(b1 - a1) / b1"]) simp
    qed
  }
qed

theorem Rfl_VecGen_tau_witness:
  "\<exists>b t. fst (Rfl_VecGen \<lparr>minValue = Fin (1 / 2), maxValue = Fin 2, epsilon = Fin (1 / 2)\<rparr>
           2 (Fin 3) (\<lambda>i. Fin 4) 1 NaN) = Fin b \<and> b \<noteq> 0
     \<and> snd (snd (Rfl_VecGen \<lparr>minValue = Fin (1 / 2), maxValue = Fin 2, epsilon = Fin (1 / 2)\<rparr>
           2 (Fin 3) (\<lambda>i. Fin 4) 1 NaN)) = Fin t \<and> t = (b - 3) / b \<and> 1 \<le> t \<and> t \<le> 2"
  using Rfl_VecGen_tau [of "\<lparr>minValue = Fin (1 / 2), maxValue = Fin 2, epsilon = Fin (1 / 2)\<rparr>"
      "1 / 2" "Fin 3" 3 2 "\<lambda>i. Fin 4" 1 NaN]
  by (simp add: VecRef_def)

subsection \<open>The boolean of \<open>Syt_EigQR::Solve\<close> when the budget is zero\<close>

text \<open>
  Claim C1. The claim is that \<open>Solve\<close> returns \<open>true\<close> only when every block has been
  deflated, for every configuration, \<open>maxIterationCount = 0\<close> included. With
  \<open>maxIterationCount = 0\<close> the bound \<open>maxCount = n*maxIterationCount\<close> is zero, the loop
  \<open>while( count < maxCount )\<close> is not entered and the routine falls through to its last
  line, \<open>return true\<close>: it returns \<open>true\<close> on every input with the arrays untouched, for
  instance on the 2-by-2 matrix with diagonal \<open>(1, 2)\<close> and off-diagonal element \<open>1\<close>,
  whose coupling \<open>e[0] = 1\<close> is still there and whose block was never looked at.
\<close>

theorem Solve_zero_budget_returns_true:
  "Syt_EigQR_Solve L \<lparr>maxIterationCount = 0, zeroTol = z\<rparr> n d e = Return True (d, e)
   \<and> Syt_EigQR_Solve L \<lparr>maxIterationCount = 0, zeroTol = z\<rparr> 2 d_two e_one
       = Return True (d_two, e_one)
   \<and> e_one 0 = Fin 1 \<and> d_two 0 = Fin 1 \<and> d_two 1 = Fin 2"
proof -
  have run: "Syt_EigQR_run L \<lparr>maxIterationCount = 0, zeroTol = z\<rparr> m x y = Return True (0, x, y)"
    for m x y
    unfolding Syt_EigQR_run_def Let_def
    by (subst EigQR_outer.simps) simp
  have "Syt_EigQR_Solve L \<lparr>maxIterationCount = 0, zeroTol = z\<rparr> m x y = Return True (x, y)"
    for m x y
    unfolding Syt_EigQR_Solve_def run by simp
  then show ?thesis
    by (simp add: e_one_def d_two_def)
qed

subsection \<open>Already-diagonal input\<close>

lemma split_scan_zero:
  assumes "k1 < int n - 1 \<Longrightarrow> e k1 = Fin 0"
  shows "split_scan tol n d e k1 = (k1, e)"
  using assms by (subst split_scan.simps) (simp add: Let_def IsZero_def)

lemma EigQR_block_single:
  "EigQR_block L ssfmin ssfmax eps2 maxCount count k1 k1 d e = Next (count, d, e)"
  by (simp add: EigQR_block_def)

lemma EigQR_outer_diagonal:
  assumes z: "\<forall>i. 0 \<le> i \<and> i < int n - 1 \<longrightarrow> e i = Fin 0"
    and k1: "0 \<le> k1"
  shows "EigQR_outer L cfg n ssfmin ssfmax eps2 maxCount 0 k1 d e = Return True (0, d, e)"
  using k1
proof (induction "nat (int n - k1)" arbitrary: k1 rule: less_induct)
  case less
  show ?case
  proof (cases "0 < maxCount \<and> \<not> int n - 1 < k1")
    case False
    then show ?thesis
      by (subst EigQR_outer.simps) auto
  next
    case True
    have upd: "(if 0 < k1 then e(k1 - 1 := Fin 0) else e) = e"
      using z less.prems True by (auto simp: fun_eq_iff)
    have sc: "split_scan (zeroTol cfg) n d e k1 = (k1, e)"
      by (rule split_scan_zero) (use z less.prems in auto)
    have nxt: "EigQR_outer L cfg n ssfmin ssfmax eps2 maxCount 0 (k1 + 1) d e
        = Return True (0, d, e)"
      by (rule less.hyps) (use True less.prems in auto)
    show ?thesis
      using True
      by (subst EigQR_outer.simps) (simp add: upd sc EigQR_block_single nxt)
  qed
qed

text \<open>
  Claim C6. With \<open>n = 0\<close>, and for every \<open>n\<close> when the \<open>n - 1\<close> entries \<open>e[0..n-2]\<close> are all
  exactly zero, \<open>Solve\<close> returns \<open>true\<close>, the sweep counter is still zero at the end, and
  \<open>d\<close> (and \<open>e\<close>) are returned as they were given; this for every configuration and every
  limits of the scalar type. (For \<open>n = 0\<close> the hypothesis says nothing about \<open>e\<close>.)
\<close>

theorem Solve_already_diagonal:
  assumes "\<forall>i. 0 \<le> i \<and> i < int n - 1 \<longrightarrow> e i = Fin 0"
  shows "Syt_EigQR_run L cfg n d e = Return True (0, d, e)
         \<and> Syt_EigQR_Solve L cfg n d e = Return True (d, e)"
proof -
  have run: "Syt_EigQR_run L cfg n d e = Return True (0, d, e)"
    unfolding Syt_EigQR_run_def Let_def
    using EigQR_outer_diagonal [OF assms, of 0] by simp
  then show ?thesis
    by (simp add: Syt_EigQR_Solve_def)
qed

theorem Solve_already_diagonal_witness:
  "Syt_EigQR_run toy_limits (default_config toy_limits) 3 d_two (\<lambda>i. Fin 0)
       = Return True (0, d_two, \<lambda>i. Fin 0)
   \<and> Syt_EigQR_Solve toy_limits (default_config toy_limits) 3 d_two (\<lambda>i. Fin 0)
       = Return True (d_two, \<lambda>i. Fin 0)"
  using Solve_already_diagonal [of 3 "\<lambda>i. Fin 0" toy_limits "default_config toy_limits" d_two]
  by simp

subsection \<open>The two eigensolvers compute the same values\<close>

lemma Aux_EigVec2_values:
  "(case Aux_EigVec2 a b c of (rt1, rt2, cs1, sn1) \<Rightarrow> (rt1, rt2)) = Aux_Eig2 a b c"
  unfolding Aux_EigVec2_def Aux_Eig2_def Let_def
  by (simp split: prod.splits if_splits)

lemma for_each_ok:
  assumes "\<And>i a. i \<in> set js \<Longrightarrow> \<exists>a'. body i a = Inr a'"
  shows "\<exists>a'. for_each js body a = Inr a'"
  using assms
proof (induction js arbitrary: a)
  case Nil
  then show ?case by simp
next
  case (Cons j js)
  obtain a1 where a1: "body j a = Inr a1"
    using Cons.prems [of j a] by auto
  have "\<exists>a'. for_each js body a1 = Inr a'"
    by (rule Cons.IH) (use Cons.prems in auto)
  then show ?case
    by (simp add: a1 sig_bind_def)
qed

lemma rot_Right_Var_ok:
  assumes "0 \<le> i" "i < int m" "0 \<le> j" "j + 1 < int n"
  shows "\<exists>B. rot_Right_Var m n cj sj j i A = Inr B"
  using assms by (simp add: rot_Right_Var_def mat_get_def mat_set_def sig_bind_def)

lemma Mat_RotSeq_Right_Var_ok:
  "\<exists>B. Mat_RotSeq Side_Right Pivot_Var direct m n c s A = Inr B"
proof (cases "m = 0 \<or> n = 0")
  case True
  then show ?thesis by (auto simp: Mat_RotSeq_def)
next
  case False
  have inner: "\<exists>B. rot_if (c j) (s j)
      (for_each [0..int m - 1] (rot_Right_Var m n (c j) (s j) j)) A' = Inr B"
    if "j \<in> set (in_order direct [0..int n - 2])" for j A'
  proof -
    have j: "0 \<le> j" "j + 1 < int n"
      using that by (auto simp: in_order_def split: Direct.splits)
    have "\<exists>B. for_each [0..int m - 1] (rot_Right_Var m n (c j) (s j) j) A' = Inr B"
      by (rule for_each_ok) (use j in \<open>auto intro!: rot_Right_Var_ok\<close>)
    then show ?thesis by (auto simp: rot_if_def)
  qed
  have "\<exists>B. for_each (in_order direct [0..int n - 2])
      (\<lambda>j. rot_if (c j) (s j) (for_each [0..int m - 1] (rot_Right_Var m n (c j) (s j) j))) A
      = Inr B"
    by (rule for_each_ok) (rule inner)
  then show ?thesis
    using False by (simp add: Mat_RotSeq_def)
qed

lemma EigVec2_rot_ok: "\<exists>Z' work'. EigVec2_rot n direct k j0 cs1 sn1 Z work = Inr (Z', work')"
proof -
  obtain B where "Mat_RotSeq Side_Right Pivot_Var direct n 2
      (ptr_add (work(k := cs1, int n + k := sn1)) k)
      (ptr_add (work(k := cs1, int n + k := sn1)) (int n + k)) (blk_add Z 0 j0) = Inr B"
    using Mat_RotSeq_Right_Var_ok by blast
  then show ?thesis
    by (simp add: EigVec2_rot_def Let_def)
qed

lemma QLZ_sweep_values:
  "map_option (\<lambda>(g, c, s, p, d, e, work). (g, c, s, p, d, e)) (QLZ_sweep L n k0 k i st)
     = QL_sweep L k0 k i ((\<lambda>(g, c, s, p, d, e, work). (g, c, s, p, d, e)) st)"
proof (induction L n k0 k i st rule: QLZ_sweep.induct)
  case (1 L n k0 k i g c s p d e work)
  show ?case
  proof (cases "k \<le> i")
    case False
    then show ?thesis
      by (simp only: prod.case, subst QLZ_sweep.simps, subst QL_sweep.simps) simp
  next
    case True
    show ?thesis
    proof (cases "Aux_PlnRot2 L g (s * e i)")
      case None
      then show ?thesis
        using True by (simp only: prod.case, subst QLZ_sweep.simps, subst QL_sweep.simps) simp
    next
      case (Some t)
      obtain c1 s1 r1 where t: "t = (c1, s1, r1)" by (cases t) auto
      note IH = 1 [OF True refl refl Some [unfolded t] refl refl refl refl refl refl refl refl
          refl refl]
      show ?thesis
        using True Some t IH
        by (simp only: prod.case, subst QLZ_sweep.simps, subst QL_sweep.simps)
           (simp add: Let_def)
    qed
  qed
qed

lemma QRZ_sweep_values:
  "map_option (\<lambda>(g, c, s, p, d, e, work). (g, c, s, p, d, e)) (QRZ_sweep L n k0 k i st)
     = QR_sweep L k0 k i ((\<lambda>(g, c, s, p, d, e, work). (g, c, s, p, d, e)) st)"
proof (induction L n k0 k i st rule: QRZ_sweep.induct)
  case (1 L n k0 k i g c s p d e work)
  show ?case
  proof (cases "i \<le> k - 1")
    case False
    then show ?thesis
      by (simp only: prod.case, subst QRZ_sweep.simps, subst QR_sweep.simps) simp
  next
    case True
    show ?thesis
    proof (cases "Aux_PlnRot2 L g (s * e i)")
      case None
      then show ?thesis
        using True by (simp only: prod.case, subst QRZ_sweep.simps, subst QR_sweep.simps) simp
    next
      case (Some t)
      obtain c1 s1 r1 where t: "t = (c1, s1, r1)" by (cases t) auto
      note IH = 1 [OF True refl refl Some [unfolded t] refl refl refl refl refl refl refl refl
          refl refl]
      show ?thesis
        using True Some t IH
        by (simp only: prod.case, subst QRZ_sweep.simps, subst QR_sweep.simps)
           (simp add: Let_def)
    qed
  qed
qed


lemma counted_values_simp [simp]: "counted_values (count, d, e, Z, work) = (count, d, e)"
  by (simp add: counted_values_def)

lemma QLZ_step_values:
  "\<exists>Z' work'. QLZ_step L n k0 k d e Z work =
     (case QL_step L k0 k d e of
        None \<Rightarrow> None
      | Some (d', e') \<Rightarrow> Some (Inr (d', e', Z', work')))"
proof -
  define g0 where "g0 = d k0 - d k
      + (e k / ((d (k + 1) - d k) / (Fin 2 * e k)
                + CopySign (Hypot ((d (k + 1) - d k) / (Fin 2 * e k)) 1)
                    ((d (k + 1) - d k) / (Fin 2 * e k))))"
  have sw: "map_option (\<lambda>(g, c, s, p, d, e, work). (g, c, s, p, d, e))
      (QLZ_sweep L n k0 k (k0 - 1) (g0, 1, 1, Fin 0, d, e, work))
      = QL_sweep L k0 k (k0 - 1) (g0, 1, 1, Fin 0, d, e)"
    using QLZ_sweep_values [of L n k0 k "k0 - 1" "(g0, 1, 1, Fin 0, d, e, work)"] by simp
  show ?thesis
  proof (cases "QLZ_sweep L n k0 k (k0 - 1) (g0, 1, 1, Fin 0, d, e, work)")
    case None
    then show ?thesis
      using sw [symmetric] unfolding g0_def by (simp add: QLZ_step_def QL_step_def Let_def)
  next
    case (Some st)
    obtain g c s p d1 e1 w1 where st: "st = (g, c, s, p, d1, e1, w1)"
      by (metis prod_cases7)
    obtain B where B: "Mat_RotSeq Side_Right Pivot_Var Direct_Bwd n (nat (k0 - k) + 1)
        (ptr_add w1 k) (ptr_add w1 (int n + k)) (blk_add Z 0 k) = Inr B"
      using Mat_RotSeq_Right_Var_ok by blast
    have "QLZ_step L n k0 k d e Z work
        = Some (Inr (d1(k := d1 k - p), e1(k := g), blk_store B 0 k, w1))"
      using Some st B unfolding g0_def by (simp add: QLZ_step_def Let_def)
    moreover have "QL_step L k0 k d e = Some (d1(k := d1 k - p), e1(k := g))"
      using sw [symmetric] Some st unfolding g0_def by (simp add: QL_step_def Let_def)
    ultimately show ?thesis by simp
  qed
qed

lemma QRZ_step_values:
  "\<exists>Z' work'. QRZ_step L n k0 k d e Z work =
     (case QR_step L k0 k d e of
        None \<Rightarrow> None
      | Some (d', e') \<Rightarrow> Some (Inr (d', e', Z', work')))"
proof -
  define g0 where "g0 = d k0 - d k
      + (e (k - 1) / ((d (k - 1) - d k) / (Fin 2 * e (k - 1))
                + CopySign (Hypot ((d (k - 1) - d k) / (Fin 2 * e (k - 1))) 1)
                    ((d (k - 1) - d k) / (Fin 2 * e (k - 1)))))"
  have sw: "map_option (\<lambda>(g, c, s, p, d, e, work). (g, c, s, p, d, e))
      (QRZ_sweep L n k0 k k0 (g0, 1, 1, Fin 0, d, e, work))
      = QR_sweep L k0 k k0 (g0, 1, 1, Fin 0, d, e)"
    using QRZ_sweep_values [of L n k0 k k0 "(g0, 1, 1, Fin 0, d, e, work)"] by simp
  show ?thesis
  proof (cases "QRZ_sweep L n k0 k k0 (g0, 1, 1, Fin 0, d, e, work)")
    case None
    then show ?thesis
      using sw [symmetric] unfolding g0_def by (simp add: QRZ_step_def QR_step_def Let_def)
  next
    case (Some st)
    obtain g c s p d1 e1 w1 where st: "st = (g, c, s, p, d1, e1, w1)"
      by (metis prod_cases7)
    obtain B where B: "Mat_RotSeq Side_Right Pivot_Var Direct_Fwd n (nat (k - k0) + 1)
        (ptr_add w1 k0) (ptr_add w1 (int n + k0)) (blk_add Z 0 k0) = Inr B"
      using Mat_RotSeq_Right_Var_ok by blast
    have "QRZ_step L n k0 k d e Z work
        = Some (Inr (d1(k := d1 k - p), e1(k - 1 := g), blk_store B 0 k0, w1))"
      using Some st B unfolding g0_def by (simp add: QRZ_step_def Let_def)
    moreover have "QR_step L k0 k d e = Some (d1(k := d1 k - p), e1(k - 1 := g))"
      using sw [symmetric] Some st unfolding g0_def by (simp add: QR_step_def Let_def)
    ultimately show ?thesis by simp
  qed
qed

lemma QLZ_loop_values:
  "map_outcome counted_values
     (QLZ_loop L n eps2 maxCount kend count k d e Z work)
   = QL_loop L eps2 maxCount kend count k d e"
proof (induction L n eps2 maxCount kend count k d e Z work rule: QLZ_loop.induct)
  case (1 L n eps2 maxCount kend count k d e Z work)
  show ?case
  proof (cases "k \<le> kend")
    case False
    then show ?thesis
      by (subst QLZ_loop.simps, subst QL_loop.simps) simp
  next
    case True
    obtain k0 e1 where sp: "QL_split eps2 (minValue L) d e kend k = (k0, e1)"
      by (meson surj_pair)
    consider (found) "k0 = k" | (two) "k0 \<noteq> k" "k0 = k + 1"
      | (fail) "k0 \<noteq> k" "k0 \<noteq> k + 1" "count = maxCount"
      | (sweep) "k0 \<noteq> k" "k0 \<noteq> k + 1" "count \<noteq> maxCount"
      by blast
    then show ?thesis
    proof cases
      case found
      note IH = "1.IH"(1) [OF True sp [symmetric] found]
      show ?thesis
        by (subst QLZ_loop.simps, subst QL_loop.simps) (simp add: True sp found IH)
    next
      case two
      obtain rt1 rt2 cs1 sn1
        where ev: "Aux_EigVec2 (d k) (e1 k) (d (k + 1)) = (rt1, rt2, cs1, sn1)"
        by (metis prod_cases4)
      have e2: "Aux_Eig2 (d k) (e1 k) (d (k + 1)) = (rt1, rt2)"
        using Aux_EigVec2_values [of "d k" "e1 k" "d (k + 1)"] ev by simp
      obtain Z' work' where rot: "EigVec2_rot n Direct_Bwd k k cs1 sn1 Z work = Inr (Z', work')"
        using EigVec2_rot_ok by blast
      note IH = "1.IH"(2) [OF True sp [symmetric] two ev [symmetric] refl refl rot refl]
      show ?thesis
        by (subst QLZ_loop.simps, subst QL_loop.simps)
           (simp add: True sp two ev e2 rot IH; simp add: fun_upd_def cong: if_cong)
    next
      case fail
      then show ?thesis
        by (subst QLZ_loop.simps, subst QL_loop.simps) (simp add: True sp)
    next
      case sweep
      obtain Z' work' where st: "QLZ_step L n k0 k d e1 Z work =
          (case QL_step L k0 k d e1 of
             None \<Rightarrow> None
           | Some (d', e') \<Rightarrow> Some (Inr (d', e', Z', work')))"
        using QLZ_step_values by blast
      show ?thesis
      proof (cases "QL_step L k0 k d e1")
        case None
        then show ?thesis
          by (subst QLZ_loop.simps, subst QL_loop.simps) (simp add: True sp sweep st)
      next
        case (Some de)
        obtain d' e' where de: "de = (d', e')" by (cases de) auto
        have stz: "QLZ_step L n k0 k d e1 Z work = Some (Inr (d', e', Z', work'))"
          using st Some de by simp
        note IH = "1.IH"(3) [OF True sp [symmetric] sweep stz refl refl refl refl]
        show ?thesis
          by (subst QLZ_loop.simps, subst QL_loop.simps) (simp add: True sp sweep Some de stz IH)
      qed
    qed
  qed
qed

lemma QRZ_loop_values:
  "map_outcome counted_values
     (QRZ_loop L n eps2 maxCount kend count k d e Z work)
   = QR_loop L eps2 maxCount kend count k d e"
proof (induction L n eps2 maxCount kend count k d e Z work rule: QRZ_loop.induct)
  case (1 L n eps2 maxCount kend count k d e Z work)
  show ?case
  proof (cases "kend \<le> k")
    case False
    then show ?thesis
      by (subst QRZ_loop.simps, subst QR_loop.simps) simp
  next
    case True
    obtain k0 e1 where sp: "QR_split eps2 (minValue L) d e kend k = (k0, e1)"
      by (meson surj_pair)
    consider (found) "k0 = k" | (two) "k0 \<noteq> k" "k0 = k - 1"
      | (fail) "k0 \<noteq> k" "k0 \<noteq> k - 1" "count = maxCount"
      | (sweep) "k0 \<noteq> k" "k0 \<noteq> k - 1" "count \<noteq> maxCount"
      by blast
    then show ?thesis
    proof cases
      case found
      note IH = "1.IH"(1) [OF True sp [symmetric] found]
      show ?thesis
        by (subst QRZ_loop.simps, subst QR_loop.simps) (simp add: True sp found IH)
    next
      case two
      obtain rt1 rt2 cs1 sn1
        where ev: "Aux_EigVec2 (d (k - 1)) (e1 (k - 1)) (d k) = (rt1, rt2, cs1, sn1)"
        by (metis prod_cases4)
      have e2: "Aux_Eig2 (d (k - 1)) (e1 (k - 1)) (d k) = (rt1, rt2)"
        using Aux_EigVec2_values [of "d (k - 1)" "e1 (k - 1)" "d k"] ev by simp
      obtain Z' work'
        where rot: "EigVec2_rot n Direct_Fwd k (k - 1) cs1 sn1 Z work = Inr (Z', work')"
        using EigVec2_rot_ok by blast
      note IH = "1.IH"(2) [OF True sp [symmetric] two ev [symmetric] refl refl rot refl]
      show ?thesis
        by (subst QRZ_loop.simps, subst QR_loop.simps)
           (simp add: True sp two ev e2 rot IH; simp add: fun_upd_def cong: if_cong)
    next
      case fail
      then show ?thesis
        by (subst QRZ_loop.simps, subst QR_loop.simps) (simp add: True sp)
    next
      case sweep
      obtain Z' work' where st: "QRZ_step L n k0 k d e1 Z work =
          (case QR_step L k0 k d e1 of
             None \<Rightarrow> None
           | Some (d', e') \<Rightarrow> Some (Inr (d', e', Z', work')))"
        using QRZ_step_values by blast
      show ?thesis
      proof (cases "QR_step L k0 k d e1")
        case None
        then show ?thesis
          by (subst QRZ_loop.simps, subst QR_loop.simps) (simp add: True sp sweep st)
      next
        case (Some de)
        obtain d' e' where de: "de = (d', e')" by (cases de) auto
        have stz: "QRZ_step L n k0 k d e1 Z work = Some (Inr (d', e', Z', work'))"
          using st Some de by simp
        note IH = "1.IH"(3) [OF True sp [symmetric] sweep stz refl refl refl refl]
        show ?thesis
          by (subst QRZ_loop.simps, subst QR_loop.simps) (simp add: True sp sweep Some de stz IH)
      qed
    qed
  qed
qed


lemma map_rescl: "map_outcome f (rescl r cont) = rescl r (\<lambda>x. map_outcome f (cont x))"
  by (simp add: rescl_def split: option.splits sum.splits)

lemma EigVecQR_block_values:
  "map_outcome counted_values
     (EigVecQR_block L n ssfmin ssfmax eps2 maxCount count k1 k0 d e Z work)
   = EigQR_block L ssfmin ssfmax eps2 maxCount count k1 k0 d e"
proof -
  have tail: "map_outcome counted_values
      (case R of
         Next (count, d, e, Z, work) \<Rightarrow> rescl (V d) (\<lambda>dv. Next (count, S dv, e, Z, work))
       | Return b st \<Rightarrow> Return b st
       | Throw sg \<Rightarrow> Throw sg
       | Diverge \<Rightarrow> Diverge)
    = (case map_outcome counted_values R of
         Next (count, d, e) \<Rightarrow> rescl (V d) (\<lambda>dv. Next (count, S dv, e))
       | Return b st \<Rightarrow> Return b st
       | Throw sg \<Rightarrow> Throw sg
       | Diverge \<Rightarrow> Diverge)"
    for R :: "(64 word \<times> vec \<times> vec \<times> mat \<times> vec) outcome" and V S
    by (cases R) (auto simp: map_rescl)
  have pif: "(case (if c then (a, b) else (a', b')) of (kend, k) \<Rightarrow> F kend k)
      = (if c then F a b else F a' b')" for c and a b a' b' :: int and F :: "int \<Rightarrow> int \<Rightarrow> 'x"
    by simp
  have mif: "map_outcome counted_values (if c then A else B)
      = (if c then map_outcome counted_values A else map_outcome counted_values B)" for c A B
    by simp
  show ?thesis
    unfolding EigVecQR_block_def EigQR_block_def Let_def
    by (simp add: map_rescl pif mif tail QLZ_loop_values QRZ_loop_values del: if_split
          cong: if_cong)
qed

lemma EigVecQR_outer_values:
  "map_outcome counted_values
     (EigVecQR_outer L cfg n ssfmin ssfmax eps2 maxCount count k1 d e Z work)
   = EigQR_outer L cfg n ssfmin ssfmax eps2 maxCount count k1 d e"
proof (induction L cfg n ssfmin ssfmax eps2 maxCount count k1 d e Z work
    rule: EigVecQR_outer.induct)
  case (1 L cfg n ssfmin ssfmax eps2 maxCount count k1 d e Z work)
  show ?case
  proof (cases "count < maxCount \<and> \<not> int n - 1 < k1")
    case False
    then show ?thesis
      by (subst EigVecQR_outer.simps, subst EigQR_outer.simps) auto
  next
    case True
    obtain k0 e1 where sc: "split_scan (zeroTol cfg) n d
        (if 0 < k1 then e(k1 - 1 := Fin 0) else e) k1 = (k0, e1)"
      by (meson surj_pair)
    note blk = EigVecQR_block_values [of L n ssfmin ssfmax eps2 maxCount count k1 k0 d e1 Z work]
    show ?thesis
    proof (cases "EigVecQR_block L n ssfmin ssfmax eps2 maxCount count k1 k0 d e1 Z work")
      case (Next st)
      obtain count' d' e' Z' work' where st: "st = (count', d', e', Z', work')"
        by (metis prod_cases5)
      have vb: "EigQR_block L ssfmin ssfmax eps2 maxCount count k1 k0 d e1
          = Next (count', d', e')"
        using blk Next st by simp
      note IH = "1.IH" [OF conjunct1 [OF True] conjunct2 [OF True] sc [symmetric]
          Next [unfolded st] refl refl refl refl]
      show ?thesis
        by (subst EigVecQR_outer.simps, subst EigQR_outer.simps)
           (simp add: True sc Next st vb IH)
    next
      case (Return b st)
      obtain count' d' e' Z' work' where st: "st = (count', d', e', Z', work')"
        by (metis prod_cases5)
      have vb: "EigQR_block L ssfmin ssfmax eps2 maxCount count k1 k0 d e1
          = Return b (count', d', e')"
        using blk Return st by simp
      show ?thesis
        by (subst EigVecQR_outer.simps, subst EigQR_outer.simps)
           (simp add: True sc Return st vb)
    next
      case (Throw sg)
      have vb: "EigQR_block L ssfmin ssfmax eps2 maxCount count k1 k0 d e1 = Throw sg"
        using blk Throw by simp
      show ?thesis
        by (subst EigVecQR_outer.simps, subst EigQR_outer.simps)
           (simp add: True sc Throw vb)
    next
      case Diverge
      have vb: "EigQR_block L ssfmin ssfmax eps2 maxCount count k1 k0 d e1 = Diverge"
        using blk Diverge by simp
      show ?thesis
        by (subst EigVecQR_outer.simps, subst EigQR_outer.simps)
           (simp add: True sc Diverge vb)
    qed
  qed
qed

lemma Syt_EigVecQR_run_values:
  "map_outcome counted_values (Syt_EigVecQR_run L cfg n d e Z work) = Syt_EigQR_run L cfg n d e"
  by (simp add: Syt_EigVecQR_run_def Syt_EigQR_run_def Let_def EigVecQR_outer_values)

text \<open>
  Claim C5. For every \<open>n\<close>, every pair \<open>(d, e)\<close>, every configuration and every limits of
  the scalar type, and whatever the matrix \<open>Z\<close> and the work array hold,
  \<open>Syt_EigVecQR::Solve\<close> comes to the same outcome as \<open>Syt_EigQR::Solve\<close> on the same
  \<open>(d, e)\<close>: the same boolean with the same \<open>d\<close> (and \<open>e\<close>) when one of them returns, and
  otherwise the same exception or no return from either.
\<close>

theorem Syt_EigVecQR_same_values:
  "values_of (Syt_EigVecQR_Solve L cfg n d e Z work) = Syt_EigQR_Solve L cfg n d e"
proof -
  have "map_outcome (\<lambda>(count, d, e). (d, e)) (map_outcome counted_values r)
      = values_of (map_outcome (\<lambda>(count, d, e, Z, work). (d, e, Z, work)) r)" for r
    by (cases r) (auto simp: values_of_def)
  then show ?thesis
    unfolding Syt_EigVecQR_Solve_def Syt_EigQR_Solve_def
    using Syt_EigVecQR_run_values [of L cfg n d e Z work] by metis
qed


lemma sqrt_10000: "sqrt 10000 = 100"
  using real_sqrt_abs [of 100] by simp

lemma run_ones:
  "Syt_EigQR_run coarse_limits (default_config coarse_limits) 2 e_one e_one
     = Return True (0, e_one(0 := Fin 2, 1 := Fin 0), e_one(0 := Fin 0))"
proof -
  have sc: "split_scan (Fin (1 / 10)) 2 e_one e_one 0 = (1, e_one)"
    by (subst split_scan.simps, simp add: e_one_def Let_def IsZero_def,
        subst split_scan.simps, simp)
  have ql: "ql_scan (Fin (1 / 100)) (Fin (1 / 10000)) e_one e_one 1 0 = 1"
    by (subst ql_scan.simps, simp add: e_one_def Let_def Sqr_def,
        subst ql_scan.simps, simp)
  have e2: "Aux_Eig2 (Fin 1) (Fin 1) (Fin 1) = (Fin 2, Fin 0)"
    by (simp add: Aux_Eig2_def Let_def IntSignOrZero_def oneHalf_def)
  have nrm: "Syt_Norm NormType_Max 2 e_one e_one = Fin 1"
    by (simp add: Syt_Norm_def norm_max_def e_one_def IsUndefined_def)
  have loop: "QL_loop coarse_limits (Fin (1 / 100)) 128 1 0 0 e_one e_one
      = Next (0, e_one(0 := Fin 2, 1 := Fin 0), e_one(0 := Fin 0))"
    apply (subst QL_loop.simps)
    apply (simp add: QL_split_def coarse_limits_def ql Let_def)
    apply (simp add: e_one_def [THEN fun_cong] e2)
    apply (subst QL_loop.simps)
    apply simp
    done
  have blk: "EigQR_block coarse_limits (Fin 1) (Fin (100 / 3)) (Fin (1 / 100)) 128 0 0 1
      e_one e_one = Next (0, e_one(0 := Fin 2, 1 := Fin 0), e_one(0 := Fin 0))"
  proof -
    have p: "ptr_add x 0 = x" "ptr_store x 0 = x" for x
      by (simp_all add: ptr_add_def ptr_store_def)
    have v: "e_one i = Fin 1" for i
      by (simp add: e_one_def)
    show ?thesis
      by (simp add: EigQR_block_def Let_def p nrm IsZero_def Clamp_def
          Vec_Rescl_def IsUndefined_def rescl_def loop v)
  qed
  show ?thesis
    unfolding Syt_EigQR_run_def default_config_def Let_def
    apply (simp add: coarse_limits_def Sqr_def Inv_def real_sqrt_divide sqrt_10000)
    apply (subst EigQR_outer.simps)
    apply (simp add: sc blk [unfolded coarse_limits_def])
    apply (subst EigQR_outer.simps)
    apply simp
    done
qed

theorem Syt_EigVecQR_same_values_witness:
  "values_of (Syt_EigVecQR_Solve coarse_limits (default_config coarse_limits) 2 e_one e_one
       (\<lambda>p. Fin 0) (\<lambda>i. Fin 0))
     = Return True (e_one(0 := Fin 2, 1 := Fin 0), e_one(0 := Fin 0))"
  using Syt_EigVecQR_same_values [of coarse_limits "default_config coarse_limits" 2 e_one e_one
      "\<lambda>p. Fin 0" "\<lambda>i. Fin 0"]
  by (simp add: Syt_EigQR_Solve_def run_ones)

end
